theory Spec2Isabelle
  imports Complex_Main "HOL-Library.Word"
begin

section \<open>The IPC server process of the runtime (ipc\_server\_process.c)\<close>

text \<open>
  A shallow embedding of the server process functions and of the layer renderer's
  layer bookkeeping and draw entry point.

  Conventions of the embedding.
  \<^item> A C array of fixed size is a list whose length is the declared size; a store
    past its end is undefined behaviour and is the outcome \<open>Inl InvalidAccess\<close>.
  \<^item> A pointer that is only compared is an address (\<open>addr option\<close>, \<open>None\<close> for NULL);
    a pointer that owns its pointee carries the pointee (\<open>'a option\<close>).
  \<^item> Calls that leave the process (system calls, logging, the compositor, threads)
    are appended to the \<open>trace\<close> of the server; what the outside world
    answers is read from an environment record. A \<open>Log\<close> carries the text of the
    message (without the newline and the quote characters) and its integer
    arguments. Releasing heap memory is not recorded.
  \<^item> \<open>assert\<close> is compiled as under NDEBUG (no code): asserted facts are
    proved below, never assumed.
  \<^item> Payloads that are only copied (poses, fields of view, input and output
    records) are kept as natural numbers standing for their bit patterns.
\<close>

subsection \<open>Data model\<close>

type_synonym addr = nat
type_synonym u32 = "32 word"
type_synonym xrt_pose = nat
type_synonym xrt_fov = nat
type_synonym xrt_input = nat
type_synonym xrt_output = nat

datatype fault = InvalidAccess

text \<open>struct xrt\_tracking\_origin: name, type, offset.\<close>

record xrt_tracking_origin =
  xto_name :: string
  xto_type :: nat
  xto_offset :: xrt_pose

text \<open>One view of struct xrt\_hmd\_parts: display.w\_pixels, display.h\_pixels, fov.\<close>

record xrt_view =
  w_pixels :: u32
  h_pixels :: u32
  fov :: xrt_fov

text \<open>
  struct xrt\_device. \<open>xd_inputs\<close> is the array \<open>inputs\<close> with its length
  \<open>num_inputs\<close>; \<open>hmd\<close> is the pointer to the two views, \<open>None\<close> when NULL.
\<close>

record xrt_device =
  xd_name :: nat
  xd_str :: string
  tracking_origin :: "addr option"
  hmd :: "(xrt_view \<times> xrt_view) option"
  xd_inputs :: "xrt_input list"
  xd_outputs :: "xrt_output list"

text \<open>struct ipc\_shared\_tracking\_origin and struct ipc\_shared\_device.\<close>

record ipc_shared_tracking_origin =
  it_name :: string
  it_type :: nat
  it_offset :: xrt_pose

record ipc_shared_device =
  id_name :: nat
  id_str :: string
  tracking_origin_index :: u32
  first_input_index :: u32
  num_inputs :: u32
  first_output_index :: u32
  num_outputs :: u32

text \<open>
  struct ipc\_shared\_memory. The lengths of \<open>itracks\<close>, \<open>idevs\<close>, \<open>inputs\<close> and
  \<open>outputs\<close> are IPC\_SHARED\_MAX\_DEVICES (twice), IPC\_SHARED\_MAX\_INPUTS and
  IPC\_SHARED\_MAX\_OUTPUTS. \<open>wait_frame\<close> is the semaphore: \<open>None\<close> before sem\_init,
  then (process-shared, count).
\<close>

record ipc_shared_memory =
  itracks :: "ipc_shared_tracking_origin list"
  num_itracks :: u32
  idevs :: "ipc_shared_device list"
  num_idevs :: u32
  inputs :: "xrt_input list"
  outputs :: "xrt_output list"
  ism_hmd :: "xrt_view \<times> xrt_view"
  wait_frame :: "(bool \<times> nat) option"

text \<open>
  The value of the pointer \<open>s->ism\<close>: NULL, the MAP\_FAILED of mmap (all bits set,
  not NULL), or a mapping, given by its contents.
\<close>

datatype ism_ptr = ISM_NULL | ISM_MAP_FAILED | ISM_Mapped ipc_shared_memory

subsection \<open>Layers submitted by the client, and the layer renderer\<close>

datatype xrt_layer_type =
    XRT_LAYER_STEREO_PROJECTION
  | XRT_LAYER_QUAD
  | XRT_LAYER_CUBE
  | XRT_LAYER_CYLINDER
  | XRT_LAYER_EQUIRECT1
  | XRT_LAYER_EQUIRECT2

text \<open>The sub-image of a layer: image\_index, array\_index (the rectangle is not read).\<close>

record xrt_sub_image =
  image_index :: u32
  array_index :: u32

text \<open>
  struct ipc\_layer\_render\_state: \<open>swapchain_ids\<close> is the array of two ids,
  \<open>data\<close> is flattened: type, flip\_y, stereo.l.sub, stereo.r.sub, quad.sub, quad.pose,
  quad.size.
\<close>

record ipc_layer_render_state =
  swapchain_ids :: "u32 \<times> u32"
  data_type :: xrt_layer_type
  flip_y :: bool
  stereo_l_sub :: xrt_sub_image
  stereo_r_sub :: xrt_sub_image
  quad_sub :: xrt_sub_image
  quad_pose :: xrt_pose
  quad_size :: nat

record ipc_render_state =
  rendering :: bool
  num_layers :: u32
  layers :: "ipc_layer_render_state list"

text \<open>
  struct ipc\_client\_state, the fields the server process reads or writes.
  \<open>xscs\<close> is the array of swapchain pointers (\<open>None\<close> is NULL, \<open>Some h\<close> the
  swapchain with handle \<open>h\<close>); \<open>cs_server\<close> and \<open>cs_xc\<close> say whether the back
  pointers have been set.
\<close>

record ipc_client_state =
  ipc_socket_fd :: int
  active :: bool
  num_swapchains :: u32
  xscs :: "nat option list"
  render_state :: ipc_render_state
  cs_server :: bool
  cs_xc :: bool

text \<open>struct comp\_render\_layer, the fields the renderer reads.\<close>

record comp_render_layer =
  rl_type :: xrt_layer_type
  rl_unpremultiplied_alpha :: bool

text \<open>
  struct comp\_layer\_renderer: \<open>layer_count\<close> and the array \<open>lr_layers\<close>
  (\<open>[]\<close> also stands for the NULL array).
\<close>

record comp_layer_renderer =
  layer_count :: u32
  lr_layers :: "comp_render_layer list"

subsection \<open>Calls that leave the process\<close>

text \<open>
  A swapchain image \<open>&sc->images[index]\<close> is the pair of the swapchain and the index.
  comp\_renderer\_set\_projection\_layer takes the left and right image, flip\_y, the
  layer number and the two array indices; comp\_renderer\_set\_quad\_layer the image, the
  pose, the size, flip\_y, the layer number and the array index. comp\_layer\_destroy and
  comp\_layer\_create are recorded with the number of the layer slot.
\<close>

datatype event =
    Log string "int list"
  | Comp_debug string
  | Close int
  | Unlink string
  | Shm_unlink string
  | Sem_init bool nat
  | U_var_remove_root
  | U_var_add_root
  | Ipc_server_wait_free
  | Xrt_comp_destroy
  | Xrt_device_destroy nat
  | Xrt_instance_destroy
  | Epoll_ctl_add int
  | Os_thread_join
  | Os_thread_destroy
  | Os_thread_start int
  | Comp_layer_destroy nat
  | Comp_layer_create nat
  | Comp_renderer_set_projection_layer "nat \<times> u32" "nat \<times> u32" bool u32 u32 u32
  | Comp_renderer_set_quad_layer "nat \<times> u32" xrt_pose nat bool u32 u32
  | Comp_renderer_draw
  | Comp_compositor_garbage_collect

subsection \<open>The server\<close>

text \<open>
  struct ipc\_server. \<open>xinst\<close>, \<open>xcfd\<close>, \<open>xc\<close> and \<open>iw\<close> say whether the
  pointer is set; \<open>renderer\<close> is the layer renderer reached through \<open>xc\<close>.
\<close>

record ipc_server =
  xinst :: bool
  xcfd :: bool
  xc :: bool
  iw :: bool
  xdevs :: "xrt_device option list"
  xtracks :: "addr option list"
  ism :: ism_ptr
  ism_fd :: int
  listen_socket :: int
  launched_by_socket :: bool
  socket_filename :: "string option"
  epoll_fd :: int
  running :: bool
  exit_on_disconnect :: bool
  print_debug :: bool
  print_spew :: bool
  thread_started :: bool
  thread_stopping :: bool
  thread_state :: ipc_client_state
  renderer :: comp_layer_renderer
  trace :: "event list"

definition emit :: "event list \<Rightarrow> ipc_server \<Rightarrow> ipc_server" where
  "emit es s = s\<lparr>trace := trace s @ es\<rparr>"

text \<open>The events a call appended to the trace.\<close>

definition emitted :: "ipc_server \<Rightarrow> ipc_server \<Rightarrow> event list" where
  "emitted s s' = drop (length (trace s)) (trace s')"

subsection \<open>What the outside world answers during initialisation\<close>

text \<open>
  The return values of the calls made by init\_all, in the order of the calls;
  \<open>origin_at\<close> is the memory holding the tracking origins, \<open>update_inputs\<close> the
  effect of xrt\_device\_update\_inputs on a device, \<open>have_systemd\<close> the build option
  XRT\_HAVE\_SYSTEMD.
\<close>

record os_env =
  exit_on_disconnect_option :: bool
  xrt_instance_create_ret :: int
  xrt_instance_select_ret :: int
  selected_xdevs :: "xrt_device option list"
  create_fd_compositor_ret :: int
  shm_open_ret :: int
  ftruncate_ret :: int
  mmap_ret :: ism_ptr
  origin_at :: "addr \<Rightarrow> xrt_tracking_origin"
  update_inputs :: "xrt_device \<Rightarrow> xrt_device"
  have_systemd :: bool
  sd_listen_fds_ret :: int
  socket_ret :: int
  bind_ret :: int
  listen_ret :: int
  epoll_create1_ret :: int
  epoll_ctl_stdin_ret :: int
  epoll_ctl_listen_ret :: int
  wait_alloc_ret :: int

subsection \<open>init\_tracking\_origins\<close>

text \<open>
  The inner loop, over the slots of \<open>xtracks\<close> from index 0: the pointer is stored in
  the first NULL slot, the loop stops at a slot that holds it already, and past the last
  slot nothing is stored.
\<close>

fun insert_xtrack :: "addr option \<Rightarrow> addr option list \<Rightarrow> addr option list" where
  "insert_xtrack xtrack [] = []"
| "insert_xtrack xtrack (t # ts) =
     (if t = None then xtrack # ts
      else if t = xtrack then t # ts
      else t # insert_xtrack xtrack ts)"

text \<open>The outer loop, over the slots of \<open>xdevs\<close>; a NULL device is skipped.\<close>

fun init_tracking_origins_loop ::
  "xrt_device option list \<Rightarrow> addr option list \<Rightarrow> addr option list" where
  "init_tracking_origins_loop [] xts = xts"
| "init_tracking_origins_loop (None # ds) xts = init_tracking_origins_loop ds xts"
| "init_tracking_origins_loop (Some xdev # ds) xts =
     init_tracking_origins_loop ds (insert_xtrack (tracking_origin xdev) xts)"

definition init_tracking_origins :: "ipc_server \<Rightarrow> int \<times> ipc_server" where
  "init_tracking_origins s =
     (0, s\<lparr>xtracks := init_tracking_origins_loop (xdevs s) (xtracks s)\<rparr>)"

subsection \<open>init\_shm\<close>

text \<open>
  First loop: every non-NULL slot of \<open>xtracks\<close> is copied to
  \<open>ism->itracks[count++]\<close>.
\<close>

fun setup_itracks ::
  "(addr \<Rightarrow> xrt_tracking_origin) \<Rightarrow> addr option list \<Rightarrow> u32 \<Rightarrow>
   ipc_shared_tracking_origin list \<Rightarrow> fault + (u32 \<times> ipc_shared_tracking_origin list)" where
  "setup_itracks mem [] count its = Inr (count, its)"
| "setup_itracks mem (None # xts) count its = setup_itracks mem xts count its"
| "setup_itracks mem (Some a # xts) count its =
     (if unat count < length its
      then setup_itracks mem xts (count + 1)
             (its[unat count := (its ! unat count)
                \<lparr>it_name := xto_name (mem a), it_type := xto_type (mem a),
                 it_offset := xto_offset (mem a)\<rparr>])
      else Inl InvalidAccess)"

text \<open>
  The search for the tracking origin of a device: the index \<open>k\<close> of the first slot
  equal to the pointer, (uint32\_t)-1 when no slot is.
\<close>

fun find_xtrack :: "addr option \<Rightarrow> addr option list \<Rightarrow> nat \<Rightarrow> u32" where
  "find_xtrack p [] k = - 1"
| "find_xtrack p (t # ts) k = (if p \<noteq> t then find_xtrack p ts (Suc k) else of_nat k)"

text \<open>
  The two copy loops \<open>ism->inputs[input_index++] = xdev->inputs[k]\<close> and
  \<open>ism->outputs[output_index++] = xdev->outputs[k]\<close>; the cursor is a uint32\_t.
\<close>

fun copy_records :: "nat list \<Rightarrow> u32 \<Rightarrow> nat list \<Rightarrow> fault + (u32 \<times> nat list)" where
  "copy_records [] index dst = Inr (index, dst)"
| "copy_records (x # src) index dst =
     (if unat index < length dst
      then copy_records src (index + 1) (dst[unat index := x])
      else Inl InvalidAccess)"

text \<open>
  The body of the second loop for one non-NULL device; the loop state is
  (count, input\_index, output\_index, the shared memory).
\<close>

definition setup_idev ::
  "(xrt_device \<Rightarrow> xrt_device) \<Rightarrow> addr option list \<Rightarrow> xrt_device \<Rightarrow>
   u32 \<times> u32 \<times> u32 \<times> ipc_shared_memory \<Rightarrow>
   fault + (xrt_device \<times> u32 \<times> u32 \<times> u32 \<times> ipc_shared_memory)" where
  "setup_idev upd xts xdev st =
     (case st of (count, input_index, output_index, m) \<Rightarrow>
        if \<not> unat count < length (idevs m) then Inl InvalidAccess
        else
          let i = unat count;
              idev = (idevs m ! i)\<lparr>id_name := xd_name xdev, id_str := xd_str xdev\<rparr>;
              m = (case hmd xdev of None \<Rightarrow> m | Some views \<Rightarrow> m\<lparr>ism_hmd := views\<rparr>);
              idev = idev\<lparr>tracking_origin_index := find_xtrack (tracking_origin xdev) xts 0\<rparr>;
              xdev = upd xdev;
              input_start = input_index
          in case copy_records (xd_inputs xdev) input_index (inputs m) of
               Inl f \<Rightarrow> Inl f
             | Inr (input_index, ins) \<Rightarrow>
                 let idev = (if input_start \<noteq> input_index
                             then idev\<lparr>num_inputs := input_index - input_start,
                                       first_input_index := input_start\<rparr>
                             else idev);
                     output_start = output_index
                 in case copy_records (xd_outputs xdev) output_index (outputs m) of
                      Inl f \<Rightarrow> Inl f
                    | Inr (output_index, outs) \<Rightarrow>
                        let idev = (if output_start \<noteq> output_index
                                    then idev\<lparr>num_outputs := output_index - output_start,
                                              first_output_index := output_start\<rparr>
                                    else idev)
                        in Inr (xdev, count + 1, input_index, output_index,
                                m\<lparr>idevs := (idevs m)[i := idev], inputs := ins,
                                  outputs := outs\<rparr>))"

fun setup_idevs ::
  "(xrt_device \<Rightarrow> xrt_device) \<Rightarrow> addr option list \<Rightarrow> xrt_device option list \<Rightarrow>
   u32 \<times> u32 \<times> u32 \<times> ipc_shared_memory \<Rightarrow>
   fault + (xrt_device option list \<times> u32 \<times> u32 \<times> u32 \<times> ipc_shared_memory)" where
  "setup_idevs upd xts [] st = Inr ([], st)"
| "setup_idevs upd xts (None # ds) st =
     (case setup_idevs upd xts ds st of
        Inl f \<Rightarrow> Inl f
      | Inr (ds', st') \<Rightarrow> Inr (None # ds', st'))"
| "setup_idevs upd xts (Some xdev # ds) st =
     (case setup_idev upd xts xdev st of
        Inl f \<Rightarrow> Inl f
      | Inr (xdev', st') \<Rightarrow>
          (case setup_idevs upd xts ds st' of
             Inl f \<Rightarrow> Inl f
           | Inr (ds', st'') \<Rightarrow> Inr (Some xdev' # ds', st'')))"

text \<open>
  init\_shm. The result is the returned int and the server, or a fault. The check
  after mmap is the source's \<open>s->ism == NULL\<close>; every store through \<open>ism\<close> needs a
  mapping.
\<close>

definition init_shm :: "os_env \<Rightarrow> ipc_server \<Rightarrow> fault + (int \<times> ipc_server)" where
  "init_shm env s =
     (let fd = shm_open_ret env in
      if fd < 0 then Inr (- 1, s)
      else if ftruncate_ret env < 0 then Inr (- 1, emit [Close fd] s)
      else
        let s = s\<lparr>ism := mmap_ret env\<rparr> in
        if ism s = ISM_NULL then Inr (- 1, emit [Close fd] s)
        else
          let s = emit [Shm_unlink ''/monado_shm''] s;
              s = s\<lparr>ism_fd := fd\<rparr>
          in case ism s of
               ISM_Mapped m \<Rightarrow>
                 (case setup_itracks (origin_at env) (xtracks s) 0 (itracks m) of
                    Inl f \<Rightarrow> Inl f
                  | Inr (count, its) \<Rightarrow>
                      let m = m\<lparr>itracks := its, num_itracks := count\<rparr> in
                      (case setup_idevs (update_inputs env) (xtracks s) (xdevs s) (0, 0, 0, m) of
                         Inl f \<Rightarrow> Inl f
                       | Inr (ds, count, input_index, output_index, m) \<Rightarrow>
                           let m = m\<lparr>num_idevs := count\<rparr>;
                               m = m\<lparr>wait_frame := Some (True, 0)\<rparr>
                           in Inr (0, emit [Sem_init True 0]
                                        (s\<lparr>xdevs := ds, ism := ISM_Mapped m\<rparr>))))
             | _ \<Rightarrow> Inl InvalidAccess)"

text \<open>The device entries a client reads: the first \<open>num_idevs\<close> of \<open>idevs\<close>.\<close>

definition published_idevs :: "ipc_shared_memory \<Rightarrow> ipc_shared_device list" where
  "published_idevs m = take (unat (num_idevs m)) (idevs m)"

subsection \<open>teardown\_all\<close>

text \<open>
  Modelled from the spec: IPC\_SERVER\_NUM\_XDEVS, the size of \<open>xdevs\<close> and of
  \<open>xtracks\<close> (the macro is declared in ipc\_server.h, which is not under src/); the
  spec gives the capacity \<open>N_DEV\<close> of both as 8.
\<close>

definition IPC_SERVER_NUM_XDEVS :: nat where
  "IPC_SERVER_NUM_XDEVS = 8"

text \<open>
  The helpers u\_var\_remove\_root, ipc\_server\_wait\_free, xrt\_comp\_destroy,
  xrt\_device\_destroy and xrt\_instance\_destroy are recorded as calls; each of the
  last four takes the address of a pointer and leaves it NULL.
\<close>

definition teardown_all :: "ipc_server \<Rightarrow> ipc_server" where
  "teardown_all s =
     (let s = emit [U_var_remove_root] s;
          s = emit [Ipc_server_wait_free] (s\<lparr>iw := False\<rparr>);
          s = emit [Xrt_comp_destroy] (s\<lparr>xc := False\<rparr>);
          s = emit (map Xrt_device_destroy [0..<IPC_SERVER_NUM_XDEVS])
                (s\<lparr>xdevs := map (\<lambda>_. None) (xdevs s)\<rparr>);
          s = emit [Xrt_instance_destroy] (s\<lparr>xinst := False\<rparr>)
      in if listen_socket s > 0
         then
           let s = emit [Close (listen_socket s)] s;
               s = s\<lparr>listen_socket := - 1\<rparr>
           in if \<not> launched_by_socket s
              then (case socket_filename s of
                      None \<Rightarrow> s
                    | Some path \<Rightarrow> (emit [Unlink path] s)\<lparr>socket_filename := None\<rparr>)
              else s
         else s)"

subsection \<open>The listening socket and epoll\<close>

text \<open>SD\_LISTEN\_FDS\_START of sd-daemon.h.\<close>

definition SD_LISTEN_FDS_START :: int where
  "SD_LISTEN_FDS_START = 3"

text \<open>
  The macro IPC\_MSG\_SOCK\_FILE is declared outside src/: the path is a parameter of
  create\_listen\_socket. Functions with an out parameter \<open>out_fd\<close> take its value
  and return (ret, the value of \<open>*out_fd\<close>, the server). strdup is taken to return
  the copy. In init\_epoll, \<open>add_listen_socket\<close> is the rest of the function after
  the registration of stdin.
\<close>

definition get_systemd_socket ::
  "os_env \<Rightarrow> ipc_server \<Rightarrow> int \<Rightarrow> int \<times> int \<times> ipc_server" where
  "get_systemd_socket env s out_fd =
     (if have_systemd env
      then
        let num_fds = sd_listen_fds_ret env in
        if num_fds > 1
        then (- 1, out_fd, emit [Log ''Too many file descriptors passed by systemd.'' []] s)
        else if num_fds = 1
        then (0, SD_LISTEN_FDS_START + 0,
              emit [Log ''Got existing socket from systemd.'' []]
                (s\<lparr>launched_by_socket := True\<rparr>))
        else (0, out_fd, s)
      else (0, out_fd, s))"

definition create_listen_socket ::
  "string \<Rightarrow> os_env \<Rightarrow> ipc_server \<Rightarrow> int \<Rightarrow> int \<times> int \<times> ipc_server" where
  "create_listen_socket IPC_MSG_SOCK_FILE env s out_fd =
     (let fd = socket_ret env in
      if fd < 0 then (fd, out_fd, emit [Log ''Message Socket Create Error!'' []] s)
      else
        let ret = bind_ret env in
        if ret < 0
        then
          let s = emit [Log ''ERROR: Could not bind socket to path %s: is the service running already?'' []] s;
              s = (if have_systemd env
                   then emit [Log ''Or, is the systemd unit monado.socket or monado-dev.socket active?'' []] s
                   else s)
          in (ret, out_fd, emit [Close fd] s)
        else
          let s = s\<lparr>socket_filename := Some IPC_MSG_SOCK_FILE\<rparr>;
              ret = listen_ret env
          in if ret < 0 then (ret, out_fd, emit [Close fd] s)
             else (0, fd, emit [Log ''Created listening socket.'' []] s))"

definition init_listen_socket :: "string \<Rightarrow> os_env \<Rightarrow> ipc_server \<Rightarrow> int \<times> ipc_server" where
  "init_listen_socket IPC_MSG_SOCK_FILE env s =
     (let fd = - 1;
          s = s\<lparr>listen_socket := - 1\<rparr>
      in case get_systemd_socket env s fd of (ret, fd, s) \<Rightarrow>
           if ret < 0 then (ret, s)
           else
             (case (if fd = - 1 then create_listen_socket IPC_MSG_SOCK_FILE env s fd
                    else (ret, fd, s)) of (ret, fd, s) \<Rightarrow>
                if ret < 0 then (ret, s)
                else
                  let s = s\<lparr>listen_socket := fd\<rparr>
                  in (fd, emit [Log ''Listening socket is fd %d'' [listen_socket s]] s)))"

definition init_epoll :: "os_env \<Rightarrow> ipc_server \<Rightarrow> int \<times> ipc_server" where
  "init_epoll env s =
     (let ret = epoll_create1_ret env in
      if ret < 0 then (ret, s)
      else
        let s = s\<lparr>epoll_fd := ret\<rparr>;
            add_listen_socket = (\<lambda>s.
              let ret = epoll_ctl_listen_ret env;
                  s = emit [Epoll_ctl_add (listen_socket s)] s
              in if ret < 0
                 then (ret, emit [Log ''ERROR: epoll_ctl(listen_socket) failed %i'' [ret]] s)
                 else (0, s))
        in if \<not> launched_by_socket s
           then
             let ret = epoll_ctl_stdin_ret env;
                 s = emit [Epoll_ctl_add 0] s
             in if ret < 0
                then (ret, emit [Log ''ERROR: epoll_ctl(stdin) failed %i'' [ret]] s)
                else add_listen_socket s
           else add_listen_socket s)"

subsection \<open>init\_all\<close>

text \<open>
  xrt\_instance\_create, xrt\_instance\_create\_fd\_compositor and ipc\_server\_wait\_alloc
  set their out pointer when they succeed; xrt\_instance\_select fills the
  IPC\_SERVER\_NUM\_XDEVS slots of \<open>xdevs\<close>.
\<close>

definition init_all :: "string \<Rightarrow> os_env \<Rightarrow> ipc_server \<Rightarrow> fault + (int \<times> ipc_server)" where
  "init_all IPC_MSG_SOCK_FILE env s =
     (let s = s\<lparr>running := True\<rparr>;
          s = s\<lparr>exit_on_disconnect := exit_on_disconnect_option env\<rparr>;
          ret = xrt_instance_create_ret env;
          s = s\<lparr>xinst := (0 \<le> ret)\<rparr>
      in if ret < 0 then Inr (ret, teardown_all s)
      else
        let ret = xrt_instance_select_ret env;
            s = s\<lparr>xdevs := take IPC_SERVER_NUM_XDEVS
                   (selected_xdevs env @ replicate IPC_SERVER_NUM_XDEVS None)\<rparr>
        in if ret < 0 then Inr (ret, teardown_all s)
        else if xdevs s ! 0 = None then Inr (- 1, teardown_all s)
        else
          (case init_tracking_origins s of (ret, s) \<Rightarrow>
            if ret < 0 then Inr (- 1, teardown_all s)
            else
              let ret = create_fd_compositor_ret env;
                  s = s\<lparr>xcfd := (0 \<le> ret)\<rparr>
              in if ret < 0 then Inr (ret, teardown_all s)
              else
                (case init_shm env s of
                   Inl f \<Rightarrow> Inl f
                 | Inr (ret, s) \<Rightarrow>
                     if ret < 0 then Inr (ret, teardown_all s)
                     else
                       (case init_listen_socket IPC_MSG_SOCK_FILE env s of (ret, s) \<Rightarrow>
                         if ret < 0 then Inr (ret, teardown_all s)
                         else
                           (case init_epoll env s of (ret, s) \<Rightarrow>
                             if ret < 0 then Inr (ret, teardown_all s)
                             else
                               let ret = wait_alloc_ret env;
                                   s = s\<lparr>iw := (0 \<le> ret)\<rparr>
                               in if ret < 0 then Inr (ret, teardown_all s)
                                  else
                                    let s = s\<lparr>xc := xcfd s\<rparr>
                                    in Inr (0, emit [U_var_add_root] s))))))"

subsection \<open>handle\_listen and check\_epoll\<close>

text \<open>handle\_listen; \<open>accept_ret\<close> is what accept returns.\<close>

definition handle_listen :: "int \<Rightarrow> ipc_server \<Rightarrow> ipc_server" where
  "handle_listen accept_ret vs =
     (let ret = accept_ret;
          vs = (if ret < 0
                then (emit [Log ''ERROR: accept %i'' [ret]] vs)\<lparr>running := False\<rparr>
                else vs);
          fd = ret
      in if thread_started vs \<and> \<not> thread_stopping vs
         then emit [Log ''ERROR: Client already connected!'' [], Close fd] vs
         else
           let vs = (if thread_stopping vs
                     then (emit [Os_thread_join, Os_thread_destroy] vs)
                            \<lparr>thread_stopping := False\<rparr>
                     else vs);
               vs = vs\<lparr>thread_started := True\<rparr>;
               vs = vs\<lparr>thread_state := (thread_state vs)\<lparr>ipc_socket_fd := fd\<rparr>\<rparr>
           in emit [Os_thread_start fd] vs)"

definition NUM_POLL_EVENTS :: nat where
  "NUM_POLL_EVENTS = 8"

text \<open>
  What the outside world answers during one iteration of the main loop:
  the return value of epoll\_wait, the \<open>data.fd\<close> of the events it wrote, what accept
  returns when it is called for event \<open>i\<close>, the layer comp\_layer\_create returns, and
  what the other threads wrote to the server before the next iteration.
\<close>

record loop_env =
  epoll_wait_ret :: int
  epoll_events :: "int list"
  accept_ret_at :: "nat \<Rightarrow> int"
  comp_layer_create_ret :: comp_render_layer
  worker_writes :: "ipc_server \<Rightarrow> ipc_server"

text \<open>The for loop of check\_epoll over the events from number \<open>i\<close>.\<close>

fun check_epoll_loop :: "(nat \<Rightarrow> int) \<Rightarrow> nat \<Rightarrow> int list \<Rightarrow> ipc_server \<Rightarrow> ipc_server" where
  "check_epoll_loop acc i [] vs = vs"
| "check_epoll_loop acc i (fd # evs) vs =
     (if fd = 0 then vs\<lparr>running := False\<rparr>
      else check_epoll_loop acc (Suc i) evs
             (if fd = listen_socket vs then handle_listen (acc i) vs else vs))"

text \<open>
  check\_epoll. The array \<open>events\<close> has NUM\_POLL\_EVENTS zeroed entries, of which
  epoll\_wait fills the first ones and returns their number (at most NUM\_POLL\_EVENTS).
\<close>

definition check_epoll :: "loop_env \<Rightarrow> ipc_server \<Rightarrow> ipc_server" where
  "check_epoll e vs =
     (let events = take NUM_POLL_EVENTS (epoll_events e @ replicate NUM_POLL_EVENTS 0);
          ret = epoll_wait_ret e
      in if ret < 0
         then (emit [Log ''EPOLL ERROR! %i'' [ret]] vs)\<lparr>running := False\<rparr>
         else check_epoll_loop (accept_ret_at e) 0 (take (nat ret) events) vs)"

subsection \<open>The layer renderer (comp\_layer\_renderer.c)\<close>

text \<open>
  comp\_layer\_renderer\_allocate\_layers and comp\_layer\_renderer\_destroy\_layers;
  the result is the calls made and the renderer. \<open>created\<close> is the layer
  comp\_layer\_create returns.
\<close>

definition comp_layer_renderer_allocate_layers ::
  "comp_render_layer \<Rightarrow> comp_layer_renderer \<Rightarrow> u32 \<Rightarrow> event list \<times> comp_layer_renderer" where
  "comp_layer_renderer_allocate_layers created self count =
     (let self = self\<lparr>layer_count := count\<rparr>;
          self = self\<lparr>lr_layers := replicate (unat (layer_count self)) created\<rparr>
      in (map Comp_layer_create [0..<unat (layer_count self)], self))"

definition comp_layer_renderer_destroy_layers ::
  "comp_layer_renderer \<Rightarrow> event list \<times> comp_layer_renderer" where
  "comp_layer_renderer_destroy_layers self =
     (map Comp_layer_destroy [0..<unat (layer_count self)],
      self\<lparr>lr_layers := [], layer_count := 0\<rparr>)"

text \<open>
  Modelled from the spec: comp\_renderer\_destroy\_layers and
  comp\_renderer\_allocate\_layers of comp\_renderer.c, which is not under src/: the
  compositor's destroy\_layers destroys all existing layer objects and its allocate
  allocates a fresh array of the given size, which are the two functions above applied
  to the layer renderer of the compositor.
\<close>

definition comp_renderer_destroy_layers :: "ipc_server \<Rightarrow> ipc_server" where
  "comp_renderer_destroy_layers vs =
     (case comp_layer_renderer_destroy_layers (renderer vs) of
        (es, r) \<Rightarrow> emit es (vs\<lparr>renderer := r\<rparr>))"

definition comp_renderer_allocate_layers ::
  "comp_render_layer \<Rightarrow> ipc_server \<Rightarrow> u32 \<Rightarrow> ipc_server" where
  "comp_renderer_allocate_layers created vs count =
     (case comp_layer_renderer_allocate_layers created (renderer vs) count of
        (es, r) \<Rightarrow> emit es (vs\<lparr>renderer := r\<rparr>))"

subsection \<open>Layer reconciliation\<close>

text \<open>
  \_update\_projection\_layer and \_update\_quad\_layer. \<open>active_client\<close> points to
  the \<open>thread_state\<close> of the server and \<open>layer\<close> to an element of its render state,
  so both are read from the server. Reading \<open>xscs\<close> past its end is a fault; the right
  operand of \<open>||\<close> is read only when the left slot is not NULL.
\<close>

definition update_projection_layer ::
  "ipc_server \<Rightarrow> ipc_layer_render_state \<Rightarrow> u32 \<Rightarrow> fault + (bool \<times> ipc_server)" where
  "update_projection_layer vs layer i =
     (let active_client = thread_state vs;
          lsi = fst (swapchain_ids layer);
          rsi = snd (swapchain_ids layer)
      in if \<not> unat lsi < length (xscs active_client) then Inl InvalidAccess
         else
           (case xscs active_client ! unat lsi of
              None \<Rightarrow>
                Inr (False, emit [Log ''ERROR: Invalid swap chain for projection layer.'' []] vs)
            | Some cl \<Rightarrow>
                if \<not> unat rsi < length (xscs active_client) then Inl InvalidAccess
                else
                  (case xscs active_client ! unat rsi of
                     None \<Rightarrow>
                       Inr (False,
                         emit [Log ''ERROR: Invalid swap chain for projection layer.'' []] vs)
                   | Some cr \<Rightarrow>
                       let l = (cl, image_index (stereo_l_sub layer));
                           r = (cr, image_index (stereo_r_sub layer))
                       in Inr (True,
                            emit [Comp_renderer_set_projection_layer l r (flip_y layer) i
                                    (array_index (stereo_l_sub layer))
                                    (array_index (stereo_r_sub layer))] vs))))"

definition update_quad_layer ::
  "ipc_server \<Rightarrow> ipc_layer_render_state \<Rightarrow> u32 \<Rightarrow> fault + (bool \<times> ipc_server)" where
  "update_quad_layer vs layer i =
     (let active_client = thread_state vs;
          sci = fst (swapchain_ids layer)
      in if \<not> unat sci < length (xscs active_client) then Inl InvalidAccess
         else
           (case xscs active_client ! unat sci of
              None \<Rightarrow> Inr (False, emit [Log ''ERROR: Invalid swap chain for quad layer.'' []] vs)
            | Some sc \<Rightarrow>
                let image = (sc, image_index (quad_sub layer));
                    pose = quad_pose layer;
                    size = quad_size layer
                in Inr (True,
                     emit [Comp_renderer_set_quad_layer image pose size (flip_y layer) i
                             (array_index (quad_sub layer))] vs)))"

text \<open>
  The for loop of \_update\_layers over the layer numbers; reading \<open>layers\<close> past its
  end is a fault. A layer of another type than the two cases of the switch is passed
  over.
\<close>

fun update_layers_loop :: "nat list \<Rightarrow> ipc_server \<Rightarrow> fault + (bool \<times> ipc_server)" where
  "update_layers_loop [] vs = Inr (True, vs)"
| "update_layers_loop (i # js) vs =
     (let render_state = render_state (thread_state vs) in
      if \<not> i < length (layers render_state) then Inl InvalidAccess
      else
        let layer = layers render_state ! i in
        (case data_type layer of
           XRT_LAYER_STEREO_PROJECTION \<Rightarrow>
             (case update_projection_layer vs layer (of_nat i) of
                Inl f \<Rightarrow> Inl f
              | Inr (ok, vs) \<Rightarrow> if \<not> ok then Inr (False, vs) else update_layers_loop js vs)
         | XRT_LAYER_QUAD \<Rightarrow>
             (case update_quad_layer vs layer (of_nat i) of
                Inl f \<Rightarrow> Inl f
              | Inr (ok, vs) \<Rightarrow> if \<not> ok then Inr (False, vs) else update_layers_loop js vs)
         | _ \<Rightarrow> update_layers_loop js vs))"

text \<open>
  \_update\_layers; \<open>num_layers_v\<close> is the value of \<open>*num_layers\<close>, returned
  updated as the third component.
\<close>

definition update_layers ::
  "comp_render_layer \<Rightarrow> ipc_server \<Rightarrow> u32 \<Rightarrow> fault + (bool \<times> ipc_server \<times> u32)" where
  "update_layers created vs num_layers_v =
     (let render_state = render_state (thread_state vs) in
      case (if num_layers_v \<noteq> num_layers render_state
            then (num_layers render_state,
                  comp_renderer_allocate_layers created (comp_renderer_destroy_layers vs)
                    (num_layers render_state))
            else (num_layers_v, vs)) of (num_layers_v, vs) \<Rightarrow>
        (case update_layers_loop [0..<unat (num_layers render_state)] vs of
           Inl f \<Rightarrow> Inl f
         | Inr (ok, vs) \<Rightarrow> Inr (ok, vs, num_layers_v)))"

subsection \<open>main\_loop\<close>

text \<open>
  One iteration of the while loop: the server and the local \<open>num_layers\<close> after it.
  The \<open>continue\<close> of a failed reconciliation leaves the iteration before the draw.
\<close>

definition main_loop_body :: "loop_env \<Rightarrow> ipc_server \<Rightarrow> u32 \<Rightarrow> fault + (ipc_server \<times> u32)" where
  "main_loop_body e vs num_layers_v =
     (let vs = check_epoll e vs;
          active_client = (if active (thread_state vs) then Some (thread_state vs) else None);
          draw = (\<lambda>vs. emit [Comp_renderer_draw, Comp_compositor_garbage_collect] vs)
      in if active_client = None \<or> \<not> active (thread_state vs) \<or>
            num_swapchains (thread_state vs) = 0
         then
           (if num_layers_v \<noteq> 0
            then Inr (draw (comp_renderer_destroy_layers
                             (emit [Comp_debug ''Destroying layers.''] vs)), 0)
            else Inr (draw vs, num_layers_v))
         else if rendering (render_state (thread_state vs))
         then
           (case update_layers (comp_layer_create_ret e) vs num_layers_v of
              Inl f \<Rightarrow> Inl f
            | Inr (ok, vs, num_layers_v) \<Rightarrow>
                if \<not> ok then Inr (vs, num_layers_v)
                else
                  Inr (draw (vs\<lparr>thread_state := (thread_state vs)
                               \<lparr>render_state := (render_state (thread_state vs))
                                  \<lparr>rendering := False\<rparr>\<rparr>\<rparr>), num_layers_v))
         else Inr (draw vs, num_layers_v))"

text \<open>
  The while loop, run on the answers of the outside world for the iterations to
  come; \<open>None\<close> when the loop is still running after the last of them.
\<close>

fun main_loop_while ::
  "loop_env list \<Rightarrow> ipc_server \<Rightarrow> u32 \<Rightarrow> (fault + (int \<times> ipc_server)) option" where
  "main_loop_while [] vs num_layers_v = (if running vs then None else Some (Inr (0, vs)))"
| "main_loop_while (e # es) vs num_layers_v =
     (if \<not> running vs then Some (Inr (0, vs))
      else
        (case main_loop_body e vs num_layers_v of
           Inl f \<Rightarrow> Some (Inl f)
         | Inr (vs, num_layers_v) \<Rightarrow> main_loop_while es (worker_writes e vs) num_layers_v))"

definition main_loop :: "loop_env list \<Rightarrow> ipc_server \<Rightarrow> (fault + (int \<times> ipc_server)) option" where
  "main_loop es vs =
     (let vs = vs\<lparr>thread_state := (thread_state vs)\<lparr>cs_server := True\<rparr>\<rparr>;
          vs = vs\<lparr>thread_state := (thread_state vs)\<lparr>cs_xc := xc vs\<rparr>\<rparr>
      in main_loop_while es vs 0)"

subsection \<open>comp\_layer\_renderer\_draw\<close>

text \<open>
  The clear colours. A float is the rational number that its binary32 value is: the
  literal \<open>0.1f\<close> is the binary32 number nearest to one tenth, 13421773 / 2^27;
  \<open>0.0f\<close> and \<open>1.0f\<close> are 0 and 1.
\<close>

type_synonym VkClearColorValue = "rat \<times> rat \<times> rat \<times> rat"

definition float_0_1 :: rat where
  "float_0_1 = 13421773 / 134217728"

definition background_color_idle :: VkClearColorValue where
  "background_color_idle = (float_0_1, float_0_1, float_0_1, 1)"

definition background_color_active :: VkClearColorValue where
  "background_color_active = (0, 0, 0, 1)"

text \<open>
  The commands recorded into the command buffer. A pipeline, a vertex buffer and a
  matrix are named by the field or local variable of the source that holds them (the
  matrix arithmetic is floating point and is not modelled).
\<close>

datatype pipeline =
    Pipeline_premultiplied_alpha
  | Pipeline_unpremultiplied_alpha
  | Pipeline_equirect1
  | Pipeline_equirect2
  | Pipeline_cube

datatype vertex_buffer = Cylinder_vertex_buffer | Self_vertex_buffer

datatype matrix = Vp_world | Vp_eye | Vp_inv

type_synonym VkExtent2D = "u32 \<times> u32"

record render_gfx_target_resources =
  rtr_extent :: VkExtent2D
  rtr_framebuffer :: nat

datatype vk_cmd =
    VkCmdSetViewport VkExtent2D
  | VkCmdSetScissor VkExtent2D
  | VkCmdBeginRenderPass VkExtent2D VkClearColorValue nat
  | Comp_layer_draw nat nat pipeline vertex_buffer matrix matrix
  | VkCmdEndRenderPass

text \<open>
  \_render\_eye, the for loop over the layer numbers; \<open>cube\<close> is the build option
  XRT\_FEATURE\_OPENXR\_LAYER\_CUBE. Reading \<open>layers\<close> past its end is a fault.
\<close>

fun render_eye ::
  "bool \<Rightarrow> comp_layer_renderer \<Rightarrow> nat \<Rightarrow> nat list \<Rightarrow> fault + vk_cmd list" where
  "render_eye cube self eye [] = Inr []"
| "render_eye cube self eye (i # js) =
     (if \<not> i < length (lr_layers self) then Inl InvalidAccess
      else
        let layer = lr_layers self ! i;
            unpremultiplied_alpha = rl_unpremultiplied_alpha layer;
            vertex_buffer = (if rl_type layer = XRT_LAYER_CYLINDER
                             then Cylinder_vertex_buffer else Self_vertex_buffer);
            pipeline = (if unpremultiplied_alpha then Pipeline_premultiplied_alpha
                        else Pipeline_unpremultiplied_alpha);
            cmd = (if rl_type layer = XRT_LAYER_EQUIRECT2
                   then Comp_layer_draw i eye Pipeline_equirect2 vertex_buffer Vp_inv Vp_inv
                   else if rl_type layer = XRT_LAYER_EQUIRECT1
                   then Comp_layer_draw i eye Pipeline_equirect1 vertex_buffer Vp_inv Vp_inv
                   else if cube \<and> rl_type layer = XRT_LAYER_CUBE
                   then Comp_layer_draw i eye Pipeline_cube vertex_buffer Vp_inv Vp_inv
                   else Comp_layer_draw i eye pipeline vertex_buffer Vp_world Vp_eye)
        in (case render_eye cube self eye js of
              Inl f \<Rightarrow> Inl f
            | Inr cmds \<Rightarrow> Inr (cmd # cmds)))"

text \<open>\_render\_pass\_begin: the clear colour is the first clear value of the pass.\<close>

definition render_pass_begin :: "VkExtent2D \<Rightarrow> VkClearColorValue \<Rightarrow> nat \<Rightarrow> vk_cmd list" where
  "render_pass_begin extent clear_color frame_buffer =
     [VkCmdBeginRenderPass extent clear_color frame_buffer]"

text \<open>\_render\_stereo, with its loop over the two eyes.\<close>

fun render_stereo_eyes ::
  "bool \<Rightarrow> comp_layer_renderer \<Rightarrow> VkExtent2D \<Rightarrow> nat list \<Rightarrow> VkClearColorValue \<Rightarrow>
   nat list \<Rightarrow> fault + vk_cmd list" where
  "render_stereo_eyes cube self extent framebuffers color [] = Inr []"
| "render_stereo_eyes cube self extent framebuffers color (eye # eyes) =
     (case render_eye cube self eye [0..<unat (layer_count self)] of
        Inl f \<Rightarrow> Inl f
      | Inr layer_cmds \<Rightarrow>
          (case render_stereo_eyes cube self extent framebuffers color eyes of
             Inl f \<Rightarrow> Inl f
           | Inr cmds \<Rightarrow>
               Inr (render_pass_begin extent color (framebuffers ! eye) @ layer_cmds @
                    [VkCmdEndRenderPass] @ cmds)))"

definition render_stereo ::
  "bool \<Rightarrow> comp_layer_renderer \<Rightarrow> VkExtent2D \<Rightarrow> nat list \<Rightarrow> VkClearColorValue \<Rightarrow>
   fault + vk_cmd list" where
  "render_stereo cube self extent framebuffers color =
     (case render_stereo_eyes cube self extent framebuffers color [0..<2] of
        Inl f \<Rightarrow> Inl f
      | Inr cmds \<Rightarrow> Inr ([VkCmdSetViewport extent, VkCmdSetScissor extent] @ cmds))"

definition comp_layer_renderer_draw ::
  "bool \<Rightarrow> comp_layer_renderer \<Rightarrow> render_gfx_target_resources \<Rightarrow>
   render_gfx_target_resources \<Rightarrow> fault + vk_cmd list" where
  "comp_layer_renderer_draw cube self rtr_left rtr_right =
     (let extent = rtr_extent rtr_left;
          framebuffers = [rtr_framebuffer rtr_left, rtr_framebuffer rtr_right]
      in if layer_count self = 0
         then render_stereo cube self extent framebuffers background_color_idle
         else render_stereo cube self extent framebuffers background_color_active)"

text \<open>The clear colours of the render passes a command list begins, in order.\<close>

fun clear_colors :: "vk_cmd list \<Rightarrow> VkClearColorValue list" where
  "clear_colors [] = []"
| "clear_colors (VkCmdBeginRenderPass extent color fb # cmds) = color # clear_colors cmds"
| "clear_colors (_ # cmds) = clear_colors cmds"

subsection \<open>Notions used to state the layout of the flat arrays\<close>

text \<open>
  The slice of a flat array that a device entry names, given the accessors of its
  first index and of its length.
\<close>

definition slice_of ::
  "(ipc_shared_device \<Rightarrow> u32) \<Rightarrow> (ipc_shared_device \<Rightarrow> u32) \<Rightarrow> ipc_shared_device \<Rightarrow> nat set" where
  "slice_of first num d = {unat (first d) ..< unat (first d) + unat (num d)}"

text \<open>
  The state of the slices while the second loop of init\_shm runs: the first \<open>k\<close>
  entries are written, their slices end at or before the cursor \<open>a\<close> and are pairwise
  disjoint, and the entries from \<open>k\<close> on still hold zeros.
\<close>

definition slices_ok ::
  "(ipc_shared_device \<Rightarrow> u32) \<Rightarrow> (ipc_shared_device \<Rightarrow> u32) \<Rightarrow> nat \<Rightarrow> nat \<Rightarrow>
   ipc_shared_device list \<Rightarrow> bool" where
  "slices_ok first num k a es \<longleftrightarrow>
     (\<forall>j < k. unat (first (es ! j)) + unat (num (es ! j)) \<le> a) \<and>
     (\<forall>j. k \<le> j \<and> j < length es \<longrightarrow> first (es ! j) = 0 \<and> num (es ! j) = 0) \<and>
     (\<forall>i < k. \<forall>j < k. i \<noteq> j \<longrightarrow> slice_of first num (es ! i) \<inter> slice_of first num (es ! j) = {})"

text \<open>The number of records the copy loops wrote for the devices of a list.\<close>

definition total_inputs_written :: "xrt_device option list \<Rightarrow> nat" where
  "total_inputs_written ds =
     sum_list (map (\<lambda>d. case d of None \<Rightarrow> 0 | Some xdev \<Rightarrow> length (xd_inputs xdev)) ds)"

definition total_outputs_written :: "xrt_device option list \<Rightarrow> nat" where
  "total_outputs_written ds =
     sum_list (map (\<lambda>d. case d of None \<Rightarrow> 0 | Some xdev \<Rightarrow> length (xd_outputs xdev)) ds)"

subsection \<open>A concrete run, used to instantiate the theorems\<close>

text \<open>
  Three devices in the eight slots: a head-mounted display with one input, a
  controller with two inputs and one output, and a third device with neither, which
  shares the tracking origin of the controller.
\<close>

definition example_xdevs :: "xrt_device option list" where
  "example_xdevs =
     [Some \<lparr>xd_name = 1, xd_str = ''hmd'', tracking_origin = Some 100,
            hmd = Some (\<lparr>w_pixels = 960, h_pixels = 1080, fov = 1\<rparr>,
                        \<lparr>w_pixels = 960, h_pixels = 1080, fov = 2\<rparr>),
            xd_inputs = [11], xd_outputs = []\<rparr>,
      Some \<lparr>xd_name = 2, xd_str = ''left'', tracking_origin = Some 200, hmd = None,
            xd_inputs = [21, 22], xd_outputs = [31]\<rparr>,
      None,
      Some \<lparr>xd_name = 3, xd_str = ''puck'', tracking_origin = Some 200, hmd = None,
            xd_inputs = [], xd_outputs = []\<rparr>,
      None, None, None, None]"

text \<open>A new shared memory object, all zeros, with room for 8 devices, 4 inputs and 2 outputs.\<close>

definition example_ism0 :: ipc_shared_memory where
  "example_ism0 =
     \<lparr>itracks = replicate 8 \<lparr>it_name = [], it_type = 0, it_offset = 0\<rparr>,
      num_itracks = 0,
      idevs = replicate 8 \<lparr>id_name = 0, id_str = [], tracking_origin_index = 0,
                first_input_index = 0, num_inputs = 0, first_output_index = 0,
                num_outputs = 0\<rparr>,
      num_idevs = 0,
      inputs = replicate 4 0,
      outputs = replicate 2 0,
      ism_hmd = (\<lparr>w_pixels = 0, h_pixels = 0, fov = 0\<rparr>, \<lparr>w_pixels = 0, h_pixels = 0, fov = 0\<rparr>),
      wait_frame = None\<rparr>"

definition example_env :: os_env where
  "example_env =
     \<lparr>exit_on_disconnect_option = False,
      xrt_instance_create_ret = 0,
      xrt_instance_select_ret = 0,
      selected_xdevs = example_xdevs,
      create_fd_compositor_ret = 0,
      shm_open_ret = 5,
      ftruncate_ret = 0,
      mmap_ret = ISM_Mapped example_ism0,
      origin_at = (\<lambda>a. \<lparr>xto_name = ''origin'', xto_type = a, xto_offset = 0\<rparr>),
      update_inputs = (\<lambda>xdev. xdev),
      have_systemd = False,
      sd_listen_fds_ret = 0,
      socket_ret = 6,
      bind_ret = 0,
      listen_ret = 0,
      epoll_create1_ret = 7,
      epoll_ctl_stdin_ret = 0,
      epoll_ctl_listen_ret = 0,
      wait_alloc_ret = 0\<rparr>"

text \<open>The server as U\_TYPED\_CALLOC leaves it, with the devices selected.\<close>

definition example_client :: ipc_client_state where
  "example_client =
     \<lparr>ipc_socket_fd = 0, active = False, num_swapchains = 0,
      xscs = replicate 4 None,
      render_state = \<lparr>rendering = False, num_layers = 0, layers = []\<rparr>,
      cs_server = False, cs_xc = False\<rparr>"

definition example_server :: ipc_server where
  "example_server =
     \<lparr>xinst = False, xcfd = False, xc = False, iw = False,
      xdevs = example_xdevs,
      xtracks = replicate 8 None,
      ism = ISM_NULL, ism_fd = 0, listen_socket = 0, launched_by_socket = False,
      socket_filename = None, epoll_fd = 0, running = False, exit_on_disconnect = False,
      print_debug = False, print_spew = False,
      thread_started = False, thread_stopping = False,
      thread_state = example_client,
      renderer = \<lparr>layer_count = 0, lr_layers = []\<rparr>,
      trace = []\<rparr>"

text \<open>The shared memory and the server that init\_shm leaves in this run.\<close>

definition example_ism :: ipc_shared_memory where
  "example_ism =
     \<lparr>itracks =
        [\<lparr>it_name = ''origin'', it_type = 100, it_offset = 0\<rparr>,
         \<lparr>it_name = ''origin'', it_type = 200, it_offset = 0\<rparr>] @
        replicate 6 \<lparr>it_name = [], it_type = 0, it_offset = 0\<rparr>,
      num_itracks = 2,
      idevs =
        [\<lparr>id_name = 1, id_str = ''hmd'', tracking_origin_index = 0,
           first_input_index = 0, num_inputs = 1, first_output_index = 0, num_outputs = 0\<rparr>,
         \<lparr>id_name = 2, id_str = ''left'', tracking_origin_index = 1,
           first_input_index = 1, num_inputs = 2, first_output_index = 0, num_outputs = 1\<rparr>,
         \<lparr>id_name = 3, id_str = ''puck'', tracking_origin_index = 1,
           first_input_index = 0, num_inputs = 0, first_output_index = 0, num_outputs = 0\<rparr>] @
        replicate 5 \<lparr>id_name = 0, id_str = [], tracking_origin_index = 0,
                first_input_index = 0, num_inputs = 0, first_output_index = 0,
                num_outputs = 0\<rparr>,
      num_idevs = 3,
      inputs = [11, 21, 22, 0],
      outputs = [31, 0],
      ism_hmd = (\<lparr>w_pixels = 960, h_pixels = 1080, fov = 1\<rparr>,
                 \<lparr>w_pixels = 960, h_pixels = 1080, fov = 2\<rparr>),
      wait_frame = Some (True, 0)\<rparr>"

definition example_built :: ipc_server where
  "example_built =
     example_server
       \<lparr>xtracks := [Some 100, Some 200, None, None, None, None, None, None],
        ism := ISM_Mapped example_ism,
        ism_fd := 5,
        trace := [Shm_unlink ''/monado_shm'', Sem_init True 0]\<rparr>"

subsection \<open>Notions used to state the behaviour of the main loop\<close>

text \<open>The two messages that report a NULL swapchain slot.\<close>

definition invalid_swapchain_log :: "event \<Rightarrow> bool" where
  "invalid_swapchain_log ev \<longleftrightarrow>
     ev = Log ''ERROR: Invalid swap chain for projection layer.'' [] \<or>
     ev = Log ''ERROR: Invalid swap chain for quad layer.'' []"

text \<open>The calls that destroy or create a layer object.\<close>

definition layer_alloc_event :: "event \<Rightarrow> bool" where
  "layer_alloc_event ev \<longleftrightarrow> ev \<in> range Comp_layer_destroy \<union> range Comp_layer_create"

text \<open>
  A layer refers to a NULL slot of \<open>xscs\<close>: a stereo projection through one of its
  two swapchain ids, a quad through its first.
\<close>

definition null_swapchain_layer :: "nat option list \<Rightarrow> ipc_layer_render_state \<Rightarrow> bool" where
  "null_swapchain_layer scs layer \<longleftrightarrow>
     (data_type layer = XRT_LAYER_STEREO_PROJECTION \<and>
        (scs ! unat (fst (swapchain_ids layer)) = None \<or>
         scs ! unat (snd (swapchain_ids layer)) = None)) \<or>
     (data_type layer = XRT_LAYER_QUAD \<and> scs ! unat (fst (swapchain_ids layer)) = None)"

text \<open>The swapchain ids that the dispatch of a layer reads are indices of \<open>xscs\<close>.\<close>

definition swapchain_ids_in_range :: "nat option list \<Rightarrow> ipc_layer_render_state \<Rightarrow> bool" where
  "swapchain_ids_in_range scs layer \<longleftrightarrow>
     (case data_type layer of
        XRT_LAYER_STEREO_PROJECTION \<Rightarrow>
          unat (fst (swapchain_ids layer)) < length scs \<and>
          unat (snd (swapchain_ids layer)) < length scs
      | XRT_LAYER_QUAD \<Rightarrow> unat (fst (swapchain_ids layer)) < length scs
      | _ \<Rightarrow> True)"




text \<open>
  Two servers agree on what the reconciliation and the draw read: the renderer, the
  listening socket, and the session's \<open>active\<close>, \<open>num_swapchains\<close>, \<open>xscs\<close> and
  \<open>render_state\<close>.
\<close>

definition same_session :: "ipc_server \<Rightarrow> ipc_server \<Rightarrow> bool" where
  "same_session vs vs' \<longleftrightarrow>
     renderer vs' = renderer vs \<and> listen_socket vs' = listen_socket vs \<and>
     active (thread_state vs') = active (thread_state vs) \<and>
     num_swapchains (thread_state vs') = num_swapchains (thread_state vs) \<and>
     xscs (thread_state vs') = xscs (thread_state vs) \<and>
     render_state (thread_state vs') = render_state (thread_state vs)"

text \<open>Calls among which there is neither a draw nor a report of a NULL swapchain slot.\<close>

definition quiet :: "event list \<Rightarrow> bool" where
  "quiet es \<longleftrightarrow> Comp_renderer_draw \<notin> set es \<and> filter invalid_swapchain_log es = []"

subsection \<open>Further concrete runs\<close>

text \<open>
  The shared memory object exists already and holds the entries of an earlier run:
  its third device entry names seven inputs from index 2.
\<close>

definition stale_ism0 :: ipc_shared_memory where
  "stale_ism0 =
     example_ism0
       \<lparr>idevs := (idevs example_ism0)
          [2 := \<lparr>id_name = 9, id_str = ''old'', tracking_origin_index = 0,
                  first_input_index = 2, num_inputs = 7, first_output_index = 0,
                  num_outputs = 0\<rparr>]\<rparr>"

definition stale_env :: os_env where
  "stale_env = example_env\<lparr>mmap_ret := ISM_Mapped stale_ism0\<rparr>"

definition stale_ism :: ipc_shared_memory where
  "stale_ism =
     example_ism
       \<lparr>idevs := (idevs example_ism)
          [2 := \<lparr>id_name = 3, id_str = ''puck'', tracking_origin_index = 1,
                  first_input_index = 2, num_inputs = 7, first_output_index = 0,
                  num_outputs = 0\<rparr>]\<rparr>"

definition stale_built :: ipc_server where
  "stale_built = example_built\<lparr>ism := ISM_Mapped stale_ism\<rparr>"





text \<open>A layer renderer that holds one quad layer.\<close>

definition example_renderer :: comp_layer_renderer where
  "example_renderer =
     \<lparr>layer_count = 1,
      lr_layers = [\<lparr>rl_type = XRT_LAYER_QUAD, rl_unpremultiplied_alpha = False\<rparr>]\<rparr>"

section \<open>Basic facts about the trace\<close>


lemma emitted_trace: "trace s' = trace s @ es \<Longrightarrow> emitted s s' = es"
  by (simp add: emitted_def)

section \<open>The shared catalogue built by init\_shm\<close>

subsection \<open>The tracking-origin table\<close>

text \<open>
  A table that holds pointers in its first slots and NULL in the rest stays of that
  form when init\_tracking\_origins inserts a pointer.
\<close>

lemma insert_xtrack_dense:
  "insert_xtrack (Some a) (map Some as @ replicate k None) =
     (if a \<in> set as then map Some as @ replicate k None
      else if k = 0 then map Some as
      else map Some (as @ [a]) @ replicate (k - 1) None)"
proof (induction as)
  case Nil
  show ?case by (cases k) simp_all
next
  case (Cons b as)
  then show ?case by auto
qed

lemma init_tracking_origins_loop_dense:
  "\<forall>d. Some d \<in> set ds \<longrightarrow> tracking_origin d \<noteq> None \<Longrightarrow> length ds \<le> k \<Longrightarrow>
   \<exists>bs. init_tracking_origins_loop ds (map Some as @ replicate k None) =
           map Some (as @ bs) @ replicate (k - length bs) None \<and>
         length bs \<le> length ds \<and>
         (\<forall>d. Some d \<in> set ds \<longrightarrow> tracking_origin d \<in> Some ` set (as @ bs))"
proof (induction ds arbitrary: as k)
  case Nil
  then show ?case by simp
next
  case (Cons x ds)
  show ?case
  proof (cases x)
    case None
    from Cons.prems have "\<forall>d. Some d \<in> set ds \<longrightarrow> tracking_origin d \<noteq> None" "length ds \<le> k"
      by auto
    from Cons.IH [OF this, of as] obtain bs where
      "init_tracking_origins_loop ds (map Some as @ replicate k None) =
           map Some (as @ bs) @ replicate (k - length bs) None"
      "length bs \<le> length ds"
      "\<forall>d. Some d \<in> set ds \<longrightarrow> tracking_origin d \<in> Some ` set (as @ bs)"
      by blast
    with None show ?thesis by (intro exI [of _ bs]) auto
  next
    case (Some xdev)
    with Cons.prems obtain a where a: "tracking_origin xdev = Some a" by auto
    from Cons.prems have rest: "\<forall>d. Some d \<in> set ds \<longrightarrow> tracking_origin d \<noteq> None"
      and k: "length ds < k" by auto
    show ?thesis
    proof (cases "a \<in> set as")
      case True
      from k have "length ds \<le> k" by simp
      from Cons.IH [OF rest this, of as] obtain bs where bs:
        "init_tracking_origins_loop ds (map Some as @ replicate k None) =
           map Some (as @ bs) @ replicate (k - length bs) None"
        "length bs \<le> length ds"
        "\<forall>d. Some d \<in> set ds \<longrightarrow> tracking_origin d \<in> Some ` set (as @ bs)"
        by blast
      show ?thesis
        using Some a True bs by (intro exI [of _ bs]) (auto simp: insert_xtrack_dense)
    next
      case False
      from k have "length ds \<le> k - 1" by simp
      from Cons.IH [OF rest this, of "as @ [a]"] obtain bs where bs:
        "init_tracking_origins_loop ds (map Some (as @ [a]) @ replicate (k - 1) None) =
           map Some ((as @ [a]) @ bs) @ replicate (k - 1 - length bs) None"
        "length bs \<le> length ds"
        "\<forall>d. Some d \<in> set ds \<longrightarrow> tracking_origin d \<in> Some ` set ((as @ [a]) @ bs)"
        by blast
      from k have k0: "k \<noteq> 0" by simp
      show ?thesis
        using Some a False bs k0
        by (intro exI [of _ "a # bs"]) (auto simp: insert_xtrack_dense)
    qed
  qed
qed

lemma find_xtrack_dense:
  "a \<in> set as \<Longrightarrow>
   \<exists>j < length as. find_xtrack (Some a) (map Some as @ rest) k = of_nat (k + j)"
proof (induction as arbitrary: k)
  case Nil
  then show ?case by simp
next
  case (Cons b as)
  show ?case
  proof (cases "a = b")
    case True
    then show ?thesis by (intro exI [of _ 0]) simp
  next
    case False
    with Cons.prems have "a \<in> set as" by simp
    from Cons.IH [OF this, of "Suc k"] obtain j where
      "j < length as" "find_xtrack (Some a) (map Some as @ rest) (Suc k) = of_nat (Suc k + j)"
      by blast
    with False show ?thesis by (intro exI [of _ "Suc j"]) simp
  qed
qed

lemma setup_itracks_count:
  "setup_itracks mem (map Some as @ replicate k None) c its = Inr (c', its') \<Longrightarrow>
   c' = c + of_nat (length as)"
proof (induction as arbitrary: c its)
  case Nil
  then show ?case by (induction k) simp_all
next
  case (Cons a as)
  from Cons.prems have "c' = (c + 1) + of_nat (length as)"
    by (auto split: if_splits dest: Cons.IH)
  then show ?case by (simp add: add.assoc)
qed

lemma setup_idev_entry:
  assumes "setup_idev upd xts xdev (c, ii, oi, m) = Inr (xdev', c', ii', oi', m')"
  shows "c' = c + 1" and "unat c < length (idevs m)"
    and "length (idevs m') = length (idevs m)"
    and "num_itracks m' = num_itracks m"
    and "tracking_origin_index (idevs m' ! unat c) = find_xtrack (tracking_origin xdev) xts 0"
    and "\<And>j. j \<noteq> unat c \<Longrightarrow> idevs m' ! j = idevs m ! j"
  using assms
  by (auto simp: setup_idev_def Let_def split: if_splits sum.splits option.splits prod.splits)

lemma setup_idevs_tracking:
  assumes "setup_idevs upd xts ds (c, ii, oi, m) = Inr (ds', c', ii', oi', m')"
    and "\<forall>d. Some d \<in> set ds \<longrightarrow> Q (find_xtrack (tracking_origin d) xts 0)"
    and "unat c + length ds < 2 ^ 32"
    and "\<forall>j < unat c. Q (tracking_origin_index (idevs m ! j))"
  shows "(\<forall>j < unat c'. Q (tracking_origin_index (idevs m' ! j))) \<and>
         num_itracks m' = num_itracks m"
  using assms
proof (induction ds arbitrary: c ii oi m ds')
  case Nil
  then show ?case by simp
next
  case (Cons x ds)
  show ?case
  proof (cases x)
    case None
    with Cons.prems(1) obtain ds1 where
      "setup_idevs upd xts ds (c, ii, oi, m) = Inr (ds1, c', ii', oi', m')"
      by (auto split: sum.splits)
    from Cons.IH [OF this] Cons.prems(2-4) show ?thesis by simp
  next
    case (Some xdev)
    with Cons.prems(1) obtain xdev1 c1 ii1 oi1 m1 ds1 where
      step: "setup_idev upd xts xdev (c, ii, oi, m) = Inr (xdev1, c1, ii1, oi1, m1)" and
      rest: "setup_idevs upd xts ds (c1, ii1, oi1, m1) = Inr (ds1, c', ii', oi', m')"
      by (auto split: sum.splits)
    note e = setup_idev_entry [OF step]
    from Cons.prems(3) have "unat c + 1 < 2 ^ 32" by simp
    then have uc1: "unat c1 = Suc (unat c)"
      unfolding e(1) by (simp add: unat_word_ariths)
    have q: "Q (find_xtrack (tracking_origin xdev) xts 0)"
      using Cons.prems(2) Some by simp
    have inv: "\<forall>j < unat c1. Q (tracking_origin_index (idevs m1 ! j))"
    proof (intro allI impI)
      fix j assume "j < unat c1"
      then consider "j = unat c" | "j < unat c" using uc1 by linarith
      then show "Q (tracking_origin_index (idevs m1 ! j))"
      proof cases
        case 1
        then show ?thesis using e(5) q by simp
      next
        case 2
        then show ?thesis using e(6) [of j] Cons.prems(4) by simp
      qed
    qed
    have "unat c1 + length ds < 2 ^ 32" using Cons.prems(3) uc1 by simp
    from Cons.IH [OF rest _ this inv] Cons.prems(2) e(4) show ?thesis by simp
  qed
qed

lemma example_run:
  "init_shm example_env (snd (init_tracking_origins example_server)) = Inr (0, example_built)"
  by code_simp

text \<open>
  Claim C1. Let the server have its IPC\_SERVER\_NUM\_XDEVS device slots, a zeroed
  tracking-origin table, and a non-NULL tracking origin in every device. After
  init\_tracking\_origins and a successful init\_shm, every device entry that is
  published (the first \<open>num_idevs\<close> ones) has a \<open>tracking_origin_index\<close> that is not
  (uint32\_t)-1 and is below \<open>num_itracks\<close>.
\<close>

theorem tracking_origin_index_valid:
  assumes len: "length (xdevs s) = IPC_SERVER_NUM_XDEVS"
    and zero: "xtracks s = replicate IPC_SERVER_NUM_XDEVS None"
    and origins: "\<forall>d. Some d \<in> set (xdevs s) \<longrightarrow> tracking_origin d \<noteq> None"
    and run: "init_shm env (snd (init_tracking_origins s)) = Inr (0, s')"
    and mapped: "ism s' = ISM_Mapped m"
  shows "\<forall>d \<in> set (published_idevs m).
           tracking_origin_index d \<noteq> - 1 \<and> tracking_origin_index d < num_itracks m"
proof -
  let ?N = IPC_SERVER_NUM_XDEVS
  let ?s1 = "snd (init_tracking_origins s)"
  have N: "?N = 8" by (simp add: IPC_SERVER_NUM_XDEVS_def)
  from init_tracking_origins_loop_dense [OF origins, of ?N "[]"] len
  obtain bs where
    xt: "init_tracking_origins_loop (xdevs s) (replicate ?N None) =
           map Some bs @ replicate (?N - length bs) None" and
    bl: "length bs \<le> ?N" and
    mem: "\<forall>d. Some d \<in> set (xdevs s) \<longrightarrow> tracking_origin d \<in> Some ` set bs"
    by auto
  have xts: "xtracks ?s1 = map Some bs @ replicate (?N - length bs) None"
    and xds: "xdevs ?s1 = xdevs s"
    by (simp_all add: init_tracking_origins_def zero xt)
  from run obtain m0 c0 its ds c ii oi m1 where
    tr: "setup_itracks (origin_at env) (xtracks ?s1) 0 (itracks m0) = Inr (c0, its)" and
    dv: "setup_idevs (update_inputs env) (xtracks ?s1) (xdevs ?s1)
           (0, 0, 0, m0\<lparr>itracks := its, num_itracks := c0\<rparr>) = Inr (ds, c, ii, oi, m1)" and
    s': "ism s' = ISM_Mapped (m1\<lparr>num_idevs := c, wait_frame := Some (True, 0)\<rparr>)"
    by (auto simp: init_shm_def Let_def emit_def
             split: if_splits ism_ptr.splits sum.splits prod.splits)
  from s' mapped have m: "m = m1\<lparr>num_idevs := c, wait_frame := Some (True, 0)\<rparr>" by simp
  from setup_itracks_count [OF tr [unfolded xts]] have c0: "c0 = of_nat (length bs)" by simp
  from bl N have bl8: "length bs \<le> 8" by simp
  from len N have len8: "length (xdevs s) = 8" by simp
  have ubs: "unat (of_nat (length bs) :: u32) = length bs"
    using bl8 by (simp add: unat_of_nat)
  let ?Q = "\<lambda>w :: u32. w \<noteq> - 1 \<and> w < c0"
  have q: "\<forall>d. Some d \<in> set (xdevs ?s1) \<longrightarrow> ?Q (find_xtrack (tracking_origin d) (xtracks ?s1) 0)"
  proof (intro allI impI)
    fix d assume "Some d \<in> set (xdevs ?s1)"
    with mem xds obtain a where a: "tracking_origin d = Some a" "a \<in> set bs" by auto
    from find_xtrack_dense [OF a(2), of "replicate (?N - length bs) None" 0]
    obtain j where j: "j < length bs"
      "find_xtrack (Some a) (xtracks ?s1) 0 = of_nat j" by (auto simp: xts)
    have uj: "unat (of_nat j :: u32) = j" using j(1) bl8 by (simp add: unat_of_nat)
    have "(of_nat j :: u32) < c0"
      unfolding c0 word_less_nat_alt uj ubs by (rule j(1))
    moreover have "(of_nat j :: u32) \<noteq> - 1"
    proof
      assume "(of_nat j :: u32) = - 1"
      then have "unat (of_nat j :: u32) = unat (- 1 :: u32)" by simp
      moreover have "unat (- 1 :: u32) = 4294967295" by (simp add: unsigned_minus_1_eq_mask mask_eq_exp_minus_1)
      ultimately show False using uj j(1) bl8 by simp
    qed
    ultimately show "?Q (find_xtrack (tracking_origin d) (xtracks ?s1) 0)"
      using a(1) j(2) by simp
  qed
  have small: "unat (0 :: u32) + length (xdevs ?s1) < 2 ^ 32"
    using xds len8 by simp
  from setup_idevs_tracking [where Q = ?Q, OF dv q small]
  have inv: "\<forall>j < unat c. ?Q (tracking_origin_index (idevs m1 ! j))"
    and ni: "num_itracks m1 = c0" by simp_all
  show ?thesis
  proof
    fix d assume "d \<in> set (published_idevs m)"
    then obtain j where j: "j < unat c" "j < length (idevs m1)" "d = idevs m1 ! j"
      by (auto simp: published_idevs_def m in_set_conv_nth)
    with inv ni show "tracking_origin_index d \<noteq> - 1 \<and> tracking_origin_index d < num_itracks m"
      by (simp add: m)
  qed
qed

theorem tracking_origin_index_valid_witness:
  "init_shm example_env (snd (init_tracking_origins example_server)) = Inr (0, example_built) \<and>
   ism example_built = ISM_Mapped example_ism \<and>
   published_idevs example_ism ! 2 =
     \<lparr>id_name = 3, id_str = ''puck'', tracking_origin_index = 1,
      first_input_index = 0, num_inputs = 0, first_output_index = 0, num_outputs = 0\<rparr> \<and>
   tracking_origin_index (published_idevs example_ism ! 2) \<noteq> - 1 \<and>
   tracking_origin_index (published_idevs example_ism ! 2) < num_itracks example_ism"
proof -
  have len: "length (xdevs example_server) = IPC_SERVER_NUM_XDEVS"
    by (simp add: example_server_def example_xdevs_def IPC_SERVER_NUM_XDEVS_def)
  have zero: "xtracks example_server = replicate IPC_SERVER_NUM_XDEVS None"
    by (simp add: example_server_def IPC_SERVER_NUM_XDEVS_def)
  have origins: "\<forall>d. Some d \<in> set (xdevs example_server) \<longrightarrow> tracking_origin d \<noteq> None"
    by (auto simp: example_server_def example_xdevs_def)
  have mapped: "ism example_built = ISM_Mapped example_ism"
    by (simp add: example_built_def)
  have pub: "published_idevs example_ism ! 2 =
     \<lparr>id_name = 3, id_str = ''puck'', tracking_origin_index = 1,
      first_input_index = 0, num_inputs = 0, first_output_index = 0, num_outputs = 0\<rparr>"
    and mem: "published_idevs example_ism ! 2 \<in> set (published_idevs example_ism)"
    by (simp_all add: published_idevs_def example_ism_def)
  from tracking_origin_index_valid [OF len zero origins example_run mapped] mem
  have "tracking_origin_index (published_idevs example_ism ! 2) \<noteq> - 1 \<and>
        tracking_origin_index (published_idevs example_ism ! 2) < num_itracks example_ism"
    by blast
  with example_run mapped pub show ?thesis by blast
qed
subsection \<open>The slices of the flat input and output arrays\<close>

lemma copy_records_cursor:
  "copy_records src idx dst = Inr (idx', dst') \<Longrightarrow> length dst < 2 ^ 32 \<Longrightarrow>
   unat idx' = unat idx + length src \<and> length dst' = length dst"
proof (induction src arbitrary: idx dst)
  case Nil
  then show ?case by simp
next
  case (Cons x src)
  from Cons.prems(1) have lt: "unat idx < length dst"
    and rest: "copy_records src (idx + 1) (dst[unat idx := x]) = Inr (idx', dst')"
    by (auto split: if_splits)
  from lt Cons.prems(2) have "unat idx + 1 < 2 ^ 32" by simp
  then have u: "unat (idx + 1) = Suc (unat idx)" by (simp add: unat_word_ariths)
  from Cons.IH [OF rest] Cons.prems(2) u show ?case by simp
qed

lemma setup_idev_slices:
  assumes "setup_idev upd xts xdev (c, ii, oi, m) = Inr (xdev', c', ii', oi', m')"
    and "length (inputs m) < 2 ^ 32" and "length (outputs m) < 2 ^ 32"
  shows "xdev' = upd xdev"
    and "unat ii' = unat ii + length (xd_inputs xdev')"
    and "unat oi' = unat oi + length (xd_outputs xdev')"
    and "length (inputs m') = length (inputs m)"
    and "length (outputs m') = length (outputs m)"
    and "(first_input_index (idevs m' ! unat c) = first_input_index (idevs m ! unat c) \<and>
          num_inputs (idevs m' ! unat c) = num_inputs (idevs m ! unat c) \<and>
          length (xd_inputs xdev') = 0) \<or>
         (unat (first_input_index (idevs m' ! unat c)) = unat ii \<and>
          unat (num_inputs (idevs m' ! unat c)) = length (xd_inputs xdev'))"
    and "(first_output_index (idevs m' ! unat c) = first_output_index (idevs m ! unat c) \<and>
          num_outputs (idevs m' ! unat c) = num_outputs (idevs m ! unat c) \<and>
          length (xd_outputs xdev') = 0) \<or>
         (unat (first_output_index (idevs m' ! unat c)) = unat oi \<and>
          unat (num_outputs (idevs m' ! unat c)) = length (xd_outputs xdev'))"
proof -
  let ?mh = "case hmd xdev of None \<Rightarrow> m | Some views \<Rightarrow> m\<lparr>ism_hmd := views\<rparr>"
  have mh [simp]: "inputs ?mh = inputs m" "outputs ?mh = outputs m" "idevs ?mh = idevs m"
    by (cases "hmd xdev"; simp)+
  from assms(1) obtain ins outs where
    x: "xdev' = upd xdev" and c: "unat c < length (idevs m)" and
    ci: "copy_records (xd_inputs (upd xdev)) ii (inputs m) = Inr (ii', ins)" and
    co: "copy_records (xd_outputs (upd xdev)) oi (outputs m) = Inr (oi', outs)"
    by (auto simp: setup_idev_def Let_def split: if_splits sum.splits prod.splits)
  note ki = copy_records_cursor [OF ci assms(2)]
  note ko = copy_records_cursor [OF co assms(3)]
  show "xdev' = upd xdev" by (rule x)
  show "unat ii' = unat ii + length (xd_inputs xdev')" using ki x by simp
  show "unat oi' = unat oi + length (xd_outputs xdev')" using ko x by simp
  from ki have lei: "ii \<le> ii'" by (simp add: word_le_nat_alt)
  from ko have leo: "oi \<le> oi'" by (simp add: word_le_nat_alt)
  have ui: "unat (ii' - ii) = length (xd_inputs xdev')"
    using ki x by (simp add: unat_sub [OF lei])
  have uo: "unat (oi' - oi) = length (xd_outputs xdev')"
    using ko x by (simp add: unat_sub [OF leo])
  have ei: "ii = ii' \<Longrightarrow> length (xd_inputs xdev') = 0" using ki x by simp
  have eo: "oi = oi' \<Longrightarrow> length (xd_outputs xdev') = 0" using ko x by simp
  show "length (inputs m') = length (inputs m)" "length (outputs m') = length (outputs m)"
    using assms(1) ci co ki ko
    by (auto simp: setup_idev_def Let_def split: if_splits sum.splits prod.splits option.splits)
  show "(first_input_index (idevs m' ! unat c) = first_input_index (idevs m ! unat c) \<and>
          num_inputs (idevs m' ! unat c) = num_inputs (idevs m ! unat c) \<and>
          length (xd_inputs xdev') = 0) \<or>
         (unat (first_input_index (idevs m' ! unat c)) = unat ii \<and>
          unat (num_inputs (idevs m' ! unat c)) = length (xd_inputs xdev'))"
    using assms(1) ci co c ui ei
    by (auto simp: setup_idev_def Let_def split: if_splits sum.splits prod.splits option.splits)
  show "(first_output_index (idevs m' ! unat c) = first_output_index (idevs m ! unat c) \<and>
          num_outputs (idevs m' ! unat c) = num_outputs (idevs m ! unat c) \<and>
          length (xd_outputs xdev') = 0) \<or>
         (unat (first_output_index (idevs m' ! unat c)) = unat oi \<and>
          unat (num_outputs (idevs m' ! unat c)) = length (xd_outputs xdev'))"
    using assms(1) ci co c uo eo
    by (auto simp: setup_idev_def Let_def split: if_splits sum.splits prod.splits option.splits)
qed

lemma slices_ok_step:
  assumes ok: "slices_ok F N k a es" and k: "k < length es"
    and e: "(F (es' ! k) = F (es ! k) \<and> N (es' ! k) = N (es ! k) \<and> n = 0) \<or>
            (unat (F (es' ! k)) = a \<and> unat (N (es' ! k)) = n)"
    and same: "\<And>j. j \<noteq> k \<Longrightarrow> es' ! j = es ! j" and len: "length es' = length es"
  shows "slices_ok F N (Suc k) (a + n) es'"
proof -
  from ok k have z: "F (es ! k) = 0" "N (es ! k) = 0" by (auto simp: slices_ok_def)
  from e z have new: "unat (F (es' ! k)) + unat (N (es' ! k)) \<le> a + n"
    and sl: "slice_of F N (es' ! k) \<subseteq> {a ..< a + n}"
    by (auto simp: slice_of_def)
  have old: "\<And>j. j < k \<Longrightarrow> es' ! j = es ! j" using same by simp
  have below: "\<And>j. j < k \<Longrightarrow> slice_of F N (es ! j) \<subseteq> {..< a}"
    using ok by (auto simp: slices_ok_def slice_of_def)
  have disj: "\<And>j. j < k \<Longrightarrow> slice_of F N (es ! j) \<inter> slice_of F N (es' ! k) = {}"
    using below sl by fastforce
  show ?thesis
    unfolding slices_ok_def
  proof (intro conjI allI impI)
    fix j assume "j < Suc k"
    then consider "j < k" | "j = k" by linarith
    then show "unat (F (es' ! j)) + unat (N (es' ! j)) \<le> a + n"
    proof cases
      case 1
      with ok old show ?thesis by (auto simp: slices_ok_def trans_le_add1)
    next
      case 2
      with new show ?thesis by simp
    qed
  next
    fix j assume "Suc k \<le> j \<and> j < length es'"
    with ok same [of j] len show "F (es' ! j) = 0" "N (es' ! j) = 0"
      by (auto simp: slices_ok_def)
  next
    fix i j assume ij: "i < Suc k" "j < Suc k" "i \<noteq> j"
    then consider "i < k" "j < k" | "i < k" "j = k" | "i = k" "j < k" by linarith
    then show "slice_of F N (es' ! i) \<inter> slice_of F N (es' ! j) = {}"
    proof cases
      case 1
      with ok old ij(3) show ?thesis by (simp add: slices_ok_def)
    next
      case 2
      with disj old show ?thesis by simp
    next
      case 3
      with disj [of j] old show ?thesis by (simp add: Int_commute)
    qed
  qed
qed


lemma total_written_simps:
  "total_inputs_written [] = 0"
  "total_inputs_written (None # ds) = total_inputs_written ds"
  "total_inputs_written (Some xdev # ds) = length (xd_inputs xdev) + total_inputs_written ds"
  "total_outputs_written [] = 0"
  "total_outputs_written (None # ds) = total_outputs_written ds"
  "total_outputs_written (Some xdev # ds) = length (xd_outputs xdev) + total_outputs_written ds"
  by (simp_all add: total_inputs_written_def total_outputs_written_def)

lemma setup_idevs_slices:
  assumes "setup_idevs upd xts ds (c, ii, oi, m) = Inr (ds', c', ii', oi', m')"
    and "unat c + length ds < 2 ^ 32"
    and "length (inputs m) < 2 ^ 32" and "length (outputs m) < 2 ^ 32"
    and "slices_ok first_input_index num_inputs (unat c) (unat ii) (idevs m)"
    and "slices_ok first_output_index num_outputs (unat c) (unat oi) (idevs m)"
  shows "slices_ok first_input_index num_inputs (unat c') (unat ii') (idevs m') \<and>
         slices_ok first_output_index num_outputs (unat c') (unat oi') (idevs m') \<and>
         unat ii' = unat ii + total_inputs_written ds' \<and>
         unat oi' = unat oi + total_outputs_written ds'"
  using assms
proof (induction ds arbitrary: c ii oi m ds')
  case Nil
  then show ?case by (simp add: total_written_simps)
next
  case (Cons x ds)
  show ?case
  proof (cases x)
    case None
    with Cons.prems(1) obtain ds1 where
      run: "setup_idevs upd xts ds (c, ii, oi, m) = Inr (ds1, c', ii', oi', m')"
      and ds': "ds' = None # ds1"
      by (auto split: sum.splits)
    from Cons.prems(2) have "unat c + length ds < 2 ^ 32" by simp
    from Cons.IH [OF run this Cons.prems(3-6)] show ?thesis
      unfolding ds' total_written_simps .
  next
    case (Some xdev)
    with Cons.prems(1) obtain xdev1 c1 ii1 oi1 m1 ds1 where
      step: "setup_idev upd xts xdev (c, ii, oi, m) = Inr (xdev1, c1, ii1, oi1, m1)" and
      rest: "setup_idevs upd xts ds (c1, ii1, oi1, m1) = Inr (ds1, c', ii', oi', m')" and
      ds': "ds' = Some xdev1 # ds1"
      by (auto split: sum.splits)
    note e = setup_idev_entry [OF step]
    note sl = setup_idev_slices [OF step Cons.prems(3,4)]
    from Cons.prems(2) have "unat c + 1 < 2 ^ 32" by simp
    then have uc1: "unat c1 = Suc (unat c)"
      unfolding e(1) by (simp add: unat_word_ariths)
    have i1: "slices_ok first_input_index num_inputs (unat c1) (unat ii1) (idevs m1)"
      unfolding uc1 sl(2)
      by (rule slices_ok_step [OF Cons.prems(5) e(2) sl(6) e(6) e(3)])
    have o1: "slices_ok first_output_index num_outputs (unat c1) (unat oi1) (idevs m1)"
      unfolding uc1 sl(3)
      by (rule slices_ok_step [OF Cons.prems(6) e(2) sl(7) e(6) e(3)])
    have small: "unat c1 + length ds < 2 ^ 32" using Cons.prems(2) uc1 by simp
    have caps: "length (inputs m1) < 2 ^ 32" "length (outputs m1) < 2 ^ 32"
      using sl(4,5) Cons.prems(3,4) by simp_all
    from Cons.IH [OF rest small caps i1 o1]
    have r: "slices_ok first_input_index num_inputs (unat c') (unat ii') (idevs m')"
      "slices_ok first_output_index num_outputs (unat c') (unat oi') (idevs m')"
      "unat ii' = unat ii1 + total_inputs_written ds1"
      "unat oi' = unat oi1 + total_outputs_written ds1"
      by blast+
    have "unat ii' = unat ii + total_inputs_written ds'"
      unfolding ds' total_written_simps r(3) sl(2) by simp
    moreover have "unat oi' = unat oi + total_outputs_written ds'"
      unfolding ds' total_written_simps r(4) sl(3) by simp
    ultimately show ?thesis using r(1,2) by blast
  qed
qed

text \<open>
  Claim C2, as amended. Let the device entries of the object that mmap returns hold
  zero in \<open>first_input_index\<close>, \<open>num_inputs\<close>, \<open>first_output_index\<close> and
  \<open>num_outputs\<close>, as those of a newly created object do, and let its flat arrays
  have fewer than \<open>2 ^ 32\<close> elements. After a successful init\_shm, for every
  published device entry \<open>first_input_index + num_inputs\<close> is at most the number of
  inputs written to the flat input array, the same holds for the outputs, and the input
  slices (and the output slices) of two different published entries are disjoint.
\<close>

theorem flat_array_slices:
  assumes len: "length (xdevs s) = IPC_SERVER_NUM_XDEVS"
    and fresh: "mmap_ret env = ISM_Mapped m0"
      "\<forall>d \<in> set (idevs m0). first_input_index d = 0 \<and> num_inputs d = 0 \<and>
                             first_output_index d = 0 \<and> num_outputs d = 0"
    and caps: "length (inputs m0) < 2 ^ 32" "length (outputs m0) < 2 ^ 32"
    and run: "init_shm env s = Inr (0, s')"
    and mapped: "ism s' = ISM_Mapped m"
  shows "(\<forall>d \<in> set (published_idevs m).
            unat (first_input_index d) + unat (num_inputs d) \<le> total_inputs_written (xdevs s') \<and>
            unat (first_output_index d) + unat (num_outputs d) \<le> total_outputs_written (xdevs s')) \<and>
         (\<forall>i < length (published_idevs m). \<forall>j < length (published_idevs m). i \<noteq> j \<longrightarrow>
            slice_of first_input_index num_inputs (published_idevs m ! i) \<inter>
            slice_of first_input_index num_inputs (published_idevs m ! j) = {} \<and>
            slice_of first_output_index num_outputs (published_idevs m ! i) \<inter>
            slice_of first_output_index num_outputs (published_idevs m ! j) = {})"
proof -
  from len have len8: "length (xdevs s) = 8" by (simp add: IPC_SERVER_NUM_XDEVS_def)
  from run fresh(1) obtain c0 its ds c ii oi m1 where
    dv: "setup_idevs (update_inputs env) (xtracks s) (xdevs s)
           (0, 0, 0, m0\<lparr>itracks := its, num_itracks := c0\<rparr>) = Inr (ds, c, ii, oi, m1)" and
    s': "ism s' = ISM_Mapped (m1\<lparr>num_idevs := c, wait_frame := Some (True, 0)\<rparr>)" and
    xd: "xdevs s' = ds"
    by (auto simp: init_shm_def Let_def emit_def
             split: if_splits ism_ptr.splits sum.splits prod.splits)
  from s' mapped have m: "m = m1\<lparr>num_idevs := c, wait_frame := Some (True, 0)\<rparr>" by simp
  let ?m = "m0\<lparr>itracks := its, num_itracks := c0\<rparr>"
  have z: "\<And>j. j < length (idevs m0) \<Longrightarrow>
             first_input_index (idevs m0 ! j) = 0 \<and> num_inputs (idevs m0 ! j) = 0 \<and>
             first_output_index (idevs m0 ! j) = 0 \<and> num_outputs (idevs m0 ! j) = 0"
    using fresh(2) by simp
  have i0: "slices_ok first_input_index num_inputs (unat (0 :: u32)) (unat (0 :: u32)) (idevs ?m)"
    using z by (simp add: slices_ok_def)
  have o0: "slices_ok first_output_index num_outputs (unat (0 :: u32)) (unat (0 :: u32)) (idevs ?m)"
    using z by (simp add: slices_ok_def)
  have small: "unat (0 :: u32) + length (xdevs s) < 2 ^ 32" using len8 by simp
  have caps': "length (inputs ?m) < 2 ^ 32" "length (outputs ?m) < 2 ^ 32"
    using caps by simp_all
  note r = setup_idevs_slices [OF dv small caps' i0 o0]
  from r have ok_i: "slices_ok first_input_index num_inputs (unat c) (unat ii) (idevs m1)"
    by blast
  from r have ok_o: "slices_ok first_output_index num_outputs (unat c) (unat oi) (idevs m1)"
    by blast
  from r have ti: "unat ii = total_inputs_written ds" by simp
  from r have to: "unat oi = total_outputs_written ds" by simp
  have pub: "\<And>j. j < length (published_idevs m) \<Longrightarrow>
               j < unat c \<and> published_idevs m ! j = idevs m1 ! j"
    by (simp add: published_idevs_def m)
  show ?thesis
  proof (intro conjI ballI allI impI)
    fix d assume "d \<in> set (published_idevs m)"
    then obtain j where j: "j < length (published_idevs m)" "d = published_idevs m ! j"
      by (auto simp: in_set_conv_nth)
    with pub [of j] have jc: "j < unat c" and d: "d = idevs m1 ! j" by simp_all
    from ok_i jc d ti xd
    show "unat (first_input_index d) + unat (num_inputs d) \<le> total_inputs_written (xdevs s')"
      by (simp add: slices_ok_def)
    from ok_o jc d to xd
    show "unat (first_output_index d) + unat (num_outputs d) \<le> total_outputs_written (xdevs s')"
      by (simp add: slices_ok_def)
  next
    fix i j assume ij: "i < length (published_idevs m)" "j < length (published_idevs m)" "i \<noteq> j"
    with pub [of i] pub [of j] ok_i
    show "slice_of first_input_index num_inputs (published_idevs m ! i) \<inter>
          slice_of first_input_index num_inputs (published_idevs m ! j) = {}"
      by (simp add: slices_ok_def)
    from ij pub [of i] pub [of j] ok_o
    show "slice_of first_output_index num_outputs (published_idevs m ! i) \<inter>
          slice_of first_output_index num_outputs (published_idevs m ! j) = {}"
      by (simp add: slices_ok_def)
  qed
qed

theorem flat_array_slices_witness:
  "init_shm example_env (snd (init_tracking_origins example_server)) = Inr (0, example_built) \<and>
   total_inputs_written (xdevs example_built) = 3 \<and>
   unat (first_input_index (published_idevs example_ism ! 1)) +
     unat (num_inputs (published_idevs example_ism ! 1))
     \<le> total_inputs_written (xdevs example_built) \<and>
   first_input_index (published_idevs example_ism ! 0) = 0 \<and>
   num_inputs (published_idevs example_ism ! 0) = 1 \<and>
   first_input_index (published_idevs example_ism ! 1) = 1 \<and>
   num_inputs (published_idevs example_ism ! 1) = 2 \<and>
   slice_of first_input_index num_inputs (published_idevs example_ism ! 0) \<inter>
     slice_of first_input_index num_inputs (published_idevs example_ism ! 1) = {}"
proof -
  let ?s = "snd (init_tracking_origins example_server)"
  have len: "length (xdevs ?s) = IPC_SERVER_NUM_XDEVS"
    by (simp add: init_tracking_origins_def example_server_def example_xdevs_def
          IPC_SERVER_NUM_XDEVS_def)
  have fresh: "mmap_ret example_env = ISM_Mapped example_ism0"
    "\<forall>d \<in> set (idevs example_ism0). first_input_index d = 0 \<and> num_inputs d = 0 \<and>
                             first_output_index d = 0 \<and> num_outputs d = 0"
    by (simp_all add: example_env_def example_ism0_def)
  have caps: "length (inputs example_ism0) < 2 ^ 32" "length (outputs example_ism0) < 2 ^ 32"
    by (simp_all add: example_ism0_def)
  have mapped: "ism example_built = ISM_Mapped example_ism"
    by (simp add: example_built_def)
  have pub: "length (published_idevs example_ism) = 3"
    "published_idevs example_ism ! 1 \<in> set (published_idevs example_ism)"
    by (simp_all add: published_idevs_def example_ism_def)
  have total: "total_inputs_written (xdevs example_built) = 3"
    by (simp add: total_inputs_written_def example_built_def example_server_def
          example_xdevs_def)
  have sl: "first_input_index (published_idevs example_ism ! 0) = 0"
    "num_inputs (published_idevs example_ism ! 0) = 1"
    "first_input_index (published_idevs example_ism ! 1) = 1"
    "num_inputs (published_idevs example_ism ! 1) = 2"
    by code_simp+
  note r = flat_array_slices [OF len fresh caps example_run mapped]
  from r pub(2)
  have "unat (first_input_index (published_idevs example_ism ! 1)) +
          unat (num_inputs (published_idevs example_ism ! 1))
          \<le> total_inputs_written (xdevs example_built)"
    by blast
  moreover from r pub(1)
  have "slice_of first_input_index num_inputs (published_idevs example_ism ! 0) \<inter>
          slice_of first_input_index num_inputs (published_idevs example_ism ! 1) = {}"
    by simp
  ultimately show ?thesis using example_run total sl by blast
qed

text \<open>
  The claim as first stated does not hold for every mapping: init\_shm opens the object
  with O\_CREAT only, and for a device without inputs it writes neither
  \<open>first_input_index\<close> nor \<open>num_inputs\<close>. On an object that holds the entries of an
  earlier run, the third published entry of the run below keeps seven inputs from
  index 2, where three inputs were written, and its slice meets that of the second
  entry.
\<close>

theorem flat_array_slices_counterexample:
  "init_shm stale_env (snd (init_tracking_origins example_server)) = Inr (0, stale_built) \<and>
   ism stale_built = ISM_Mapped stale_ism \<and>
   length (published_idevs stale_ism) = 3 \<and>
   total_inputs_written (xdevs stale_built) = 3 \<and>
   first_input_index (published_idevs stale_ism ! 2) = 2 \<and>
   num_inputs (published_idevs stale_ism ! 2) = 7 \<and>
   \<not> unat (first_input_index (published_idevs stale_ism ! 2)) +
       unat (num_inputs (published_idevs stale_ism ! 2))
       \<le> total_inputs_written (xdevs stale_built) \<and>
   2 \<in> slice_of first_input_index num_inputs (published_idevs stale_ism ! 1) \<inter>
         slice_of first_input_index num_inputs (published_idevs stale_ism ! 2)"
  by code_simp

subsection \<open>init\_shm returns\<close>

text \<open>
  When shm\_open, ftruncate and mmap succeed and the arrays of the mapping, each
  shorter than \<open>2 ^ 32\<close>, have room for the tracking origins, the devices and their
  inputs and outputs, init\_shm returns 0: no store leaves an array.
\<close>

lemma copy_records_succeeds:
  "unat idx + length src \<le> length dst \<Longrightarrow> length dst < 2 ^ 32 \<Longrightarrow>
   \<exists>idx' dst'. copy_records src idx dst = Inr (idx', dst')"
proof (induction src arbitrary: idx dst)
  case Nil
  then show ?case by simp
next
  case (Cons x src)
  from Cons.prems have lt: "unat idx < length dst" and "unat idx + 1 < 2 ^ 32" by simp_all
  then have u: "unat (idx + 1) = Suc (unat idx)" by (simp add: unat_word_ariths)
  have "unat (idx + 1) + length src \<le> length (dst[unat idx := x])"
    using Cons.prems(1) u by simp
  moreover have "length (dst[unat idx := x]) < 2 ^ 32" using Cons.prems(2) by simp
  ultimately obtain idx' dst' where
    "copy_records src (idx + 1) (dst[unat idx := x]) = Inr (idx', dst')"
    using Cons.IH by blast
  with lt show ?case by simp
qed

lemma setup_itracks_succeeds:
  "unat c + length xts \<le> length its \<Longrightarrow> length its < 2 ^ 32 \<Longrightarrow>
   \<exists>c' its'. setup_itracks mem xts c its = Inr (c', its')"
proof (induction xts arbitrary: c its)
  case Nil
  then show ?case by simp
next
  case (Cons x xts)
  show ?case
  proof (cases x)
    case None
    with Cons.IH [of c its] Cons.prems show ?thesis by simp
  next
    case (Some a)
    from Cons.prems have lt: "unat c < length its" and "unat c + 1 < 2 ^ 32" by simp_all
    then have u: "unat (c + 1) = Suc (unat c)" by (simp add: unat_word_ariths)
    let ?its = "its[unat c := (its ! unat c)
                \<lparr>it_name := xto_name (mem a), it_type := xto_type (mem a),
                 it_offset := xto_offset (mem a)\<rparr>]"
    have "unat (c + 1) + length xts \<le> length ?its" using Cons.prems(1) u by simp
    moreover have "length ?its < 2 ^ 32" using Cons.prems(2) by simp
    ultimately obtain c' its' where "setup_itracks mem xts (c + 1) ?its = Inr (c', its')"
      using Cons.IH by blast
    with Some lt show ?thesis by simp
  qed
qed

lemma setup_idev_succeeds:
  assumes "unat c < length (idevs m)"
    and "unat ii + length (xd_inputs (upd xdev)) \<le> length (inputs m)"
    and "length (inputs m) < 2 ^ 32"
    and "unat oi + length (xd_outputs (upd xdev)) \<le> length (outputs m)"
    and "length (outputs m) < 2 ^ 32"
  shows "\<exists>c' ii' oi' m'. setup_idev upd xts xdev (c, ii, oi, m) = Inr (upd xdev, c', ii', oi', m')"
proof -
  let ?mh = "case hmd xdev of None \<Rightarrow> m | Some views \<Rightarrow> m\<lparr>ism_hmd := views\<rparr>"
  have mh [simp]: "inputs ?mh = inputs m" "outputs ?mh = outputs m" "idevs ?mh = idevs m"
    by (cases "hmd xdev"; simp)+
  from copy_records_succeeds [OF assms(2,3)] obtain ii' ins where
    ci: "copy_records (xd_inputs (upd xdev)) ii (inputs m) = Inr (ii', ins)" by blast
  from copy_records_succeeds [OF assms(4,5)] obtain oi' outs where
    co: "copy_records (xd_outputs (upd xdev)) oi (outputs m) = Inr (oi', outs)" by blast
  from assms(1) ci co show ?thesis
    by (simp add: setup_idev_def Let_def)
qed

lemma setup_idevs_succeeds:
  assumes "unat c + length ds \<le> length (idevs m)" and "length (idevs m) < 2 ^ 32"
    and "unat ii + total_inputs_written (map (map_option upd) ds) \<le> length (inputs m)"
    and "length (inputs m) < 2 ^ 32"
    and "unat oi + total_outputs_written (map (map_option upd) ds) \<le> length (outputs m)"
    and "length (outputs m) < 2 ^ 32"
  shows "\<exists>r. setup_idevs upd xts ds (c, ii, oi, m) = Inr r"
  using assms
proof (induction ds arbitrary: c ii oi m)
  case Nil
  then show ?case by simp
next
  case (Cons x ds)
  show ?case
  proof (cases x)
    case None
    from Cons.prems have a: "unat c + length ds \<le> length (idevs m)" by simp
    from Cons.prems(3,5) None
    have b: "unat ii + total_inputs_written (map (map_option upd) ds) \<le> length (inputs m)"
      "unat oi + total_outputs_written (map (map_option upd) ds) \<le> length (outputs m)"
      by (simp_all add: total_written_simps)
    from Cons.IH [OF a Cons.prems(2) b(1) Cons.prems(4) b(2) Cons.prems(6)]
    obtain r where "setup_idevs upd xts ds (c, ii, oi, m) = Inr r" by blast
    with None show ?thesis by (cases r) simp
  next
    case (Some xdev)
    from Cons.prems(1) have lt: "unat c < length (idevs m)" by simp
    from Cons.prems(3,5) Some
    have fit: "unat ii + length (xd_inputs (upd xdev)) \<le> length (inputs m)"
      "unat oi + length (xd_outputs (upd xdev)) \<le> length (outputs m)"
      by (simp_all add: total_written_simps)
    from setup_idev_succeeds [where upd = upd and xdev = xdev and xts = xts,
        OF lt fit(1) Cons.prems(4) fit(2) Cons.prems(6)]
    obtain c1 ii1 oi1 m1 where
      step: "setup_idev upd xts xdev (c, ii, oi, m) = Inr (upd xdev, c1, ii1, oi1, m1)"
      by blast
    note e = setup_idev_entry [OF step]
    note sl = setup_idev_slices [OF step Cons.prems(4,6)]
    from lt Cons.prems(2) have "unat c + 1 < 2 ^ 32" by simp
    then have uc1: "unat c1 = Suc (unat c)" unfolding e(1) by (simp add: unat_word_ariths)
    have a: "unat c1 + length ds \<le> length (idevs m1)"
      using Cons.prems(1) uc1 e(3) by simp
    have b: "length (idevs m1) < 2 ^ 32" using Cons.prems(2) e(3) by simp
    have c: "unat ii1 + total_inputs_written (map (map_option upd) ds) \<le> length (inputs m1)"
      using Cons.prems(3) Some sl(2,4) by (simp add: total_written_simps)
    have d: "length (inputs m1) < 2 ^ 32" using Cons.prems(4) sl(4) by simp
    have f: "unat oi1 + total_outputs_written (map (map_option upd) ds) \<le> length (outputs m1)"
      using Cons.prems(5) Some sl(3,5) by (simp add: total_written_simps)
    have g: "length (outputs m1) < 2 ^ 32" using Cons.prems(6) sl(5) by simp
    from Cons.IH [OF a b c d f g] obtain r where
      "setup_idevs upd xts ds (c1, ii1, oi1, m1) = Inr r" by blast
    with Some step show ?thesis by (cases r) simp
  qed
qed

lemma init_shm_succeeds:
  assumes "0 \<le> shm_open_ret env" and "0 \<le> ftruncate_ret env"
    and "mmap_ret env = ISM_Mapped m0"
    and "length (xtracks s) \<le> length (itracks m0)" and "length (itracks m0) < 2 ^ 32"
    and "length (xdevs s) \<le> length (idevs m0)" and "length (idevs m0) < 2 ^ 32"
    and "total_inputs_written (map (map_option (update_inputs env)) (xdevs s))
           \<le> length (inputs m0)"
    and "length (inputs m0) < 2 ^ 32"
    and "total_outputs_written (map (map_option (update_inputs env)) (xdevs s))
           \<le> length (outputs m0)"
    and "length (outputs m0) < 2 ^ 32"
  shows "\<exists>s'. init_shm env s = Inr (0, s')"
proof -
  from setup_itracks_succeeds [of 0 "xtracks s" "itracks m0" "origin_at env"] assms(4,5)
  obtain c0 its where
    tr: "setup_itracks (origin_at env) (xtracks s) 0 (itracks m0) = Inr (c0, its)" by auto
  let ?m = "m0\<lparr>itracks := its, num_itracks := c0\<rparr>"
  have "\<exists>r. setup_idevs (update_inputs env) (xtracks s) (xdevs s) (0, 0, 0, ?m) = Inr r"
    by (rule setup_idevs_succeeds) (use assms(6-11) in simp_all)
  then obtain ds c ii oi m1 where
    "setup_idevs (update_inputs env) (xtracks s) (xdevs s) (0, 0, 0, ?m) = Inr (ds, c, ii, oi, m1)"
    by (metis prod_cases5)
  with tr assms(1-3) show ?thesis
    by (simp add: init_shm_def Let_def emit_def)
qed

section \<open>Failures while the shared memory is set up\<close>

lemma init_shm_open_failed:
  "shm_open_ret env < 0 \<Longrightarrow> init_shm env s = Inr (- 1, s)"
  by (simp add: init_shm_def)

lemma init_shm_ftruncate_failed:
  "0 \<le> shm_open_ret env \<Longrightarrow> ftruncate_ret env < 0 \<Longrightarrow>
   init_shm env s = Inr (- 1, emit [Close (shm_open_ret env)] s)"
  by (simp add: init_shm_def Let_def)

lemma init_shm_mmap_NULL:
  "0 \<le> shm_open_ret env \<Longrightarrow> 0 \<le> ftruncate_ret env \<Longrightarrow> mmap_ret env = ISM_NULL \<Longrightarrow>
   init_shm env s = Inr (- 1, emit [Close (shm_open_ret env)] (s\<lparr>ism := ISM_NULL\<rparr>))"
  by (simp add: init_shm_def Let_def)

lemma init_shm_mmap_MAP_FAILED:
  "0 \<le> shm_open_ret env \<Longrightarrow> 0 \<le> ftruncate_ret env \<Longrightarrow> mmap_ret env = ISM_MAP_FAILED \<Longrightarrow>
   init_shm env s = Inl InvalidAccess"
  by (simp add: init_shm_def Let_def emit_def)

lemma init_all_shm_open_or_ftruncate_failed:
  assumes "0 \<le> xrt_instance_create_ret env" and "0 \<le> xrt_instance_select_ret env"
    and "take IPC_SERVER_NUM_XDEVS (selected_xdevs env @ replicate IPC_SERVER_NUM_XDEVS None) ! 0
         \<noteq> None"
    and "0 \<le> create_fd_compositor_ret env"
    and "shm_open_ret env < 0 \<or> ftruncate_ret env < 0"
  shows "\<exists>s'. init_all path env s = Inr (- 1, teardown_all s')"
proof (cases "shm_open_ret env < 0")
  case True
  with assms(1-4) show ?thesis
    by (auto simp: init_all_def Let_def init_tracking_origins_def init_shm_open_failed)
next
  case False
  with assms(5) have "0 \<le> shm_open_ret env" "ftruncate_ret env < 0" by simp_all
  with assms(1-4) show ?thesis
    by (auto simp: init_all_def Let_def init_tracking_origins_def init_shm_ftruncate_failed)
qed

text \<open>
  Claim C3. When shm\_open or ftruncate fails, init\_shm returns -1 and init\_all returns
  it after teardown\_all (the lemmas above). When mmap fails it returns MAP\_FAILED,
  which the test \<open>s->ism == NULL\<close> of init\_shm does not catch: in the run below
  (shm\_open and ftruncate succeed, mmap returns MAP\_FAILED) init\_shm does not return an
  error but goes on to store through the pointer, and init\_all neither runs
  teardown\_all nor returns.
\<close>

theorem init_shm_mmap_failed:
  "init_shm (example_env\<lparr>mmap_ret := ISM_MAP_FAILED\<rparr>)
     (snd (init_tracking_origins example_server)) = Inl InvalidAccess \<and>
   init_all ''/tmp/monado_comp_ipc'' (example_env\<lparr>mmap_ret := ISM_MAP_FAILED\<rparr>) example_server =
     Inl InvalidAccess"
proof -
  let ?env = "example_env\<lparr>mmap_ret := ISM_MAP_FAILED\<rparr>"
  have e: "0 \<le> shm_open_ret ?env" "0 \<le> ftruncate_ret ?env" "mmap_ret ?env = ISM_MAP_FAILED"
    by (simp_all add: example_env_def)
  have a: "0 \<le> xrt_instance_create_ret ?env" "0 \<le> xrt_instance_select_ret ?env"
    "0 \<le> create_fd_compositor_ret ?env"
    "take IPC_SERVER_NUM_XDEVS (selected_xdevs ?env @ replicate IPC_SERVER_NUM_XDEVS None) ! 0 \<noteq> None"
    by (simp_all add: example_env_def example_xdevs_def IPC_SERVER_NUM_XDEVS_def)
  show ?thesis
    using a by (simp add: init_all_def Let_def init_tracking_origins_def
        init_shm_mmap_MAP_FAILED [OF e] split: prod.splits)
qed

section \<open>The listening socket at teardown\<close>

lemma teardown_all_emitted:
  "emitted s (teardown_all s) =
     [U_var_remove_root, Ipc_server_wait_free, Xrt_comp_destroy] @
     map Xrt_device_destroy [0..<IPC_SERVER_NUM_XDEVS] @ [Xrt_instance_destroy] @
     (if 0 < listen_socket s
      then Close (listen_socket s) #
           (case socket_filename s of
              None \<Rightarrow> []
            | Some path \<Rightarrow> if launched_by_socket s then [] else [Unlink path])
      else [])"
  by (simp add: teardown_all_def emitted_def emit_def Let_def split: option.splits)

lemma init_listen_socket_filename:
  assumes "init_listen_socket path env s0 = (ret, s)"
    and "socket_filename s0 = None" and "\<not> launched_by_socket s0"
    and "0 < listen_socket s"
  shows "(launched_by_socket s \<and> socket_filename s = None) \<or>
         (\<not> launched_by_socket s \<and> socket_filename s = Some path)"
  using assms
  by (auto simp: init_listen_socket_def get_systemd_socket_def create_listen_socket_def
        SD_LISTEN_FDS_START_def Let_def emit_def split: if_splits prod.splits)

text \<open>
  Claim C4. Take a server whose \<open>socket_filename\<close> is NULL and whose
  \<open>launched_by_socket\<close> is false, as allocated, and let init\_listen\_socket leave a
  listening socket above 0. Then teardown\_all closes that fd, it unlinks the socket
  path if and only if \<open>launched_by_socket\<close> is false, and it unlinks no path at
  all when the socket was inherited.
\<close>

theorem teardown_closes_and_unlinks:
  assumes "init_listen_socket path env s0 = (ret, s)"
    and "socket_filename s0 = None" and "\<not> launched_by_socket s0"
    and "0 < listen_socket s"
  shows "Close (listen_socket s) \<in> set (emitted s (teardown_all s)) \<and>
         (Unlink path \<in> set (emitted s (teardown_all s)) \<longleftrightarrow> \<not> launched_by_socket s) \<and>
         (launched_by_socket s \<longrightarrow> (\<forall>p. Unlink p \<notin> set (emitted s (teardown_all s))))"
  using init_listen_socket_filename [OF assms] assms(4)
  by (auto simp: teardown_all_emitted)

theorem teardown_closes_and_unlinks_witness:
  "listen_socket (snd (init_listen_socket ''/tmp/monado_comp_ipc'' example_env example_built)) = 6 \<and>
   Close 6 \<in> set (emitted
       (snd (init_listen_socket ''/tmp/monado_comp_ipc'' example_env example_built))
       (teardown_all (snd (init_listen_socket ''/tmp/monado_comp_ipc'' example_env example_built)))) \<and>
   Unlink ''/tmp/monado_comp_ipc'' \<in> set (emitted
       (snd (init_listen_socket ''/tmp/monado_comp_ipc'' example_env example_built))
       (teardown_all (snd (init_listen_socket ''/tmp/monado_comp_ipc'' example_env example_built))))"
proof -
  let ?r = "init_listen_socket ''/tmp/monado_comp_ipc'' example_env example_built"
  have run: "?r = (fst ?r, snd ?r)" by simp
  have s0: "socket_filename example_built = None" "\<not> launched_by_socket example_built"
    by (simp_all add: example_built_def example_server_def)
  have fd: "listen_socket (snd ?r) = 6" and own: "\<not> launched_by_socket (snd ?r)"
    by (simp_all add: init_listen_socket_def get_systemd_socket_def create_listen_socket_def
          example_env_def example_built_def example_server_def emit_def Let_def)
  from fd have pos: "0 < listen_socket (snd ?r)" by simp
  from teardown_closes_and_unlinks [OF run s0 pos] fd own show ?thesis by simp
qed

section \<open>handle\_listen\<close>

text \<open>
  Claim C5. When accept returns a new fd while the worker thread is started and not
  stopping, handle\_listen logs the error and closes the new fd, and changes nothing
  else of the server: the session's socket fd and the rest of its state, the two thread
  flags and the running flag are as before.
\<close>

theorem handle_listen_already_connected:
  assumes "0 \<le> accept_ret" and "thread_started vs" and "\<not> thread_stopping vs"
  shows "handle_listen accept_ret vs =
           vs\<lparr>trace := trace vs @
                 [Log ''ERROR: Client already connected!'' [], Close accept_ret]\<rparr> \<and>
         thread_state (handle_listen accept_ret vs) = thread_state vs \<and>
         thread_started (handle_listen accept_ret vs) \<and>
         \<not> thread_stopping (handle_listen accept_ret vs) \<and>
         running (handle_listen accept_ret vs) = running vs"
  using assms by (simp add: handle_listen_def emit_def Let_def)

theorem handle_listen_already_connected_witness:
  "handle_listen 9 (example_server\<lparr>thread_started := True\<rparr>) =
     example_server\<lparr>thread_started := True,
       trace := [Log ''ERROR: Client already connected!'' [], Close 9]\<rparr> \<and>
   thread_state (handle_listen 9 (example_server\<lparr>thread_started := True\<rparr>)) = example_client"
proof -
  let ?vs = "example_server\<lparr>thread_started := True\<rparr>"
  have h: "(0 :: int) \<le> 9" "thread_started ?vs" "\<not> thread_stopping ?vs"
    by (simp_all add: example_server_def)
  from handle_listen_already_connected [OF h] show ?thesis
    by (simp add: example_server_def)
qed

text \<open>
  Claim C10. When accept returns a negative value, handle\_listen clears \<open>running\<close>
  and goes on: with no worker that is started and not stopping, the negative value is
  stored as the session's socket fd, \<open>thread_started\<close> is set and the worker thread is
  started with it; with such a worker, close is called on the negative value.
\<close>

theorem handle_listen_accept_failed:
  assumes "accept_ret < 0"
  shows "\<not> running (handle_listen accept_ret vs) \<and>
         (\<not> (thread_started vs \<and> \<not> thread_stopping vs) \<longrightarrow>
            ipc_socket_fd (thread_state (handle_listen accept_ret vs)) = accept_ret \<and>
            thread_started (handle_listen accept_ret vs) \<and>
            Os_thread_start accept_ret \<in> set (emitted vs (handle_listen accept_ret vs))) \<and>
         (thread_started vs \<and> \<not> thread_stopping vs \<longrightarrow>
            emitted vs (handle_listen accept_ret vs) =
              [Log ''ERROR: accept %i'' [accept_ret],
               Log ''ERROR: Client already connected!'' [], Close accept_ret] \<and>
            thread_state (handle_listen accept_ret vs) = thread_state vs)"
  using assms by (simp add: handle_listen_def emit_def emitted_def Let_def)

theorem handle_listen_accept_failed_witness:
  "\<not> running (handle_listen (- 1) (example_server\<lparr>running := True\<rparr>)) \<and>
   ipc_socket_fd (thread_state (handle_listen (- 1) (example_server\<lparr>running := True\<rparr>))) = - 1 \<and>
   thread_started (handle_listen (- 1) (example_server\<lparr>running := True\<rparr>)) \<and>
   Os_thread_start (- 1) \<in>
     set (emitted (example_server\<lparr>running := True\<rparr>)
            (handle_listen (- 1) (example_server\<lparr>running := True\<rparr>)))"
proof -
  let ?vs = "example_server\<lparr>running := True\<rparr>"
  have h: "(- 1 :: int) < 0" by simp
  have idle: "\<not> (thread_started ?vs \<and> \<not> thread_stopping ?vs)"
    by (simp add: example_server_def)
  from handle_listen_accept_failed [OF h, of ?vs] idle show ?thesis by blast
qed

section \<open>Layer reconciliation\<close>

text \<open>
  The dispatch of one layer, and so the loop over the layers, only appends to the
  trace; it appends no layer allocation and no draw, and it appends one report of a
  NULL swapchain slot exactly when it fails.
\<close>

lemma update_projection_layer_emit:
  "update_projection_layer vs layer i = Inr (ok, vs') \<Longrightarrow>
   \<exists>es. vs' = emit es vs \<and> (\<forall>e \<in> set es. \<not> layer_alloc_event e \<and> e \<noteq> Comp_renderer_draw) \<and>
        length (filter invalid_swapchain_log es) = (if ok then 0 else 1)"
  by (auto simp: update_projection_layer_def Let_def layer_alloc_event_def
        invalid_swapchain_log_def split: if_splits option.splits
        intro!: exI [of _ "[x]" for x])

lemma update_quad_layer_emit:
  "update_quad_layer vs layer i = Inr (ok, vs') \<Longrightarrow>
   \<exists>es. vs' = emit es vs \<and> (\<forall>e \<in> set es. \<not> layer_alloc_event e \<and> e \<noteq> Comp_renderer_draw) \<and>
        length (filter invalid_swapchain_log es) = (if ok then 0 else 1)"
  by (auto simp: update_quad_layer_def Let_def layer_alloc_event_def
        invalid_swapchain_log_def split: if_splits option.splits
        intro!: exI [of _ "[x]" for x])

lemma emit_emit: "emit es' (emit es vs) = emit (es @ es') vs"
  by (simp add: emit_def)

lemma emit_Nil: "emit [] vs = vs"
  by (simp add: emit_def)

lemma thread_state_emit: "thread_state (emit es vs) = thread_state vs"
  by (simp add: emit_def)

lemma update_layers_loop_emit:
  "update_layers_loop js vs = Inr (ok, vs') \<Longrightarrow>
   \<exists>es. vs' = emit es vs \<and> (\<forall>e \<in> set es. \<not> layer_alloc_event e \<and> e \<noteq> Comp_renderer_draw) \<and>
        length (filter invalid_swapchain_log es) = (if ok then 0 else 1)"
proof (induction js arbitrary: vs)
  case Nil
  then show ?case by (auto simp: emit_Nil intro!: exI [of _ "[]"])
next
  case (Cons i js)
  let ?layer = "layers (render_state (thread_state vs)) ! i"
  from Cons.prems have inr: "i < length (layers (render_state (thread_state vs)))"
    by (auto simp: Let_def split: if_splits)
  consider (proj) "data_type ?layer = XRT_LAYER_STEREO_PROJECTION"
    | (quad) "data_type ?layer = XRT_LAYER_QUAD"
    | (other) "data_type ?layer \<noteq> XRT_LAYER_STEREO_PROJECTION" "data_type ?layer \<noteq> XRT_LAYER_QUAD"
    by blast
  then show ?case
  proof cases
    case proj
    with Cons.prems inr obtain ok1 vs1 where
      one: "update_projection_layer vs ?layer (of_nat i) = Inr (ok1, vs1)" and
      rest: "if \<not> ok1 then ok = False \<and> vs' = vs1 else update_layers_loop js vs1 = Inr (ok, vs')"
      by (auto simp: Let_def split: sum.splits if_splits)
    from update_projection_layer_emit [OF one] obtain es1 where
      es1: "vs1 = emit es1 vs" "\<forall>e \<in> set es1. \<not> layer_alloc_event e \<and> e \<noteq> Comp_renderer_draw"
        "length (filter invalid_swapchain_log es1) = (if ok1 then 0 else 1)" by blast
    show ?thesis
    proof (cases ok1)
      case False
      with rest es1 show ?thesis by (intro exI [of _ es1]) simp
    next
      case True
      with rest have "update_layers_loop js vs1 = Inr (ok, vs')" by simp
      from Cons.IH [OF this] obtain es2 where
        es2: "vs' = emit es2 vs1" "\<forall>e \<in> set es2. \<not> layer_alloc_event e \<and> e \<noteq> Comp_renderer_draw"
          "length (filter invalid_swapchain_log es2) = (if ok then 0 else 1)" by blast
      with es1 True show ?thesis
        by (intro exI [of _ "es1 @ es2"]) (auto simp: emit_emit)
    qed
  next
    case quad
    with Cons.prems inr obtain ok1 vs1 where
      one: "update_quad_layer vs ?layer (of_nat i) = Inr (ok1, vs1)" and
      rest: "if \<not> ok1 then ok = False \<and> vs' = vs1 else update_layers_loop js vs1 = Inr (ok, vs')"
      by (auto simp: Let_def split: sum.splits if_splits)
    from update_quad_layer_emit [OF one] obtain es1 where
      es1: "vs1 = emit es1 vs" "\<forall>e \<in> set es1. \<not> layer_alloc_event e \<and> e \<noteq> Comp_renderer_draw"
        "length (filter invalid_swapchain_log es1) = (if ok1 then 0 else 1)" by blast
    show ?thesis
    proof (cases ok1)
      case False
      with rest es1 show ?thesis by (intro exI [of _ es1]) simp
    next
      case True
      with rest have "update_layers_loop js vs1 = Inr (ok, vs')" by simp
      from Cons.IH [OF this] obtain es2 where
        es2: "vs' = emit es2 vs1" "\<forall>e \<in> set es2. \<not> layer_alloc_event e \<and> e \<noteq> Comp_renderer_draw"
          "length (filter invalid_swapchain_log es2) = (if ok then 0 else 1)" by blast
      with es1 True show ?thesis
        by (intro exI [of _ "es1 @ es2"]) (auto simp: emit_emit)
    qed
  next
    case other
    with Cons.prems inr have "update_layers_loop js vs = Inr (ok, vs')"
      by (cases "data_type ?layer") (auto simp: Let_def)
    from Cons.IH [OF this] show ?thesis .
  qed
qed


lemma trace_emit: "trace (emit es vs) = trace vs @ es"
  by (simp add: emit_def)



section \<open>The clear colour of comp\_layer\_renderer\_draw\<close>

lemma clear_colors_append: "clear_colors (xs @ ys) = clear_colors xs @ clear_colors ys"
  by (induction xs rule: clear_colors.induct) simp_all

lemma render_eye_clear_colors:
  "render_eye cube self eye js = Inr cmds \<Longrightarrow> clear_colors cmds = []"
proof (induction js arbitrary: cmds)
  case Nil
  then show ?case by simp
next
  case (Cons i js)
  then show ?case
    by (auto simp: Let_def split: if_splits sum.splits)
qed

lemma render_stereo_eyes_clear_colors:
  "render_stereo_eyes cube self extent fbs color eyes = Inr cmds \<Longrightarrow>
   clear_colors cmds = replicate (length eyes) color"
proof (induction eyes arbitrary: cmds)
  case Nil
  then show ?case by simp
next
  case (Cons eye eyes)
  then show ?case
    by (auto simp: render_pass_begin_def clear_colors_append render_eye_clear_colors
          split: sum.splits)
qed

lemma render_stereo_clear_colors:
  "render_stereo cube self extent fbs color = Inr cmds \<Longrightarrow> clear_colors cmds = [color, color]"
proof -
  assume "render_stereo cube self extent fbs color = Inr cmds"
  then obtain cs where
    cs: "render_stereo_eyes cube self extent fbs color [0..<2] = Inr cs" and
    cmds: "cmds = [VkCmdSetViewport extent, VkCmdSetScissor extent] @ cs"
    unfolding render_stereo_def by (auto split: sum.splits)
  from render_stereo_eyes_clear_colors [OF cs] have "clear_colors cs = replicate 2 color"
    by simp
  then show ?thesis unfolding cmds by (simp add: numeral_2_eq_2)
qed

lemma render_stereo_no_layers:
  "layer_count self = 0 \<Longrightarrow>
   render_stereo cube self extent [fl, fr] color =
     Inr [VkCmdSetViewport extent, VkCmdSetScissor extent,
          VkCmdBeginRenderPass extent color fl, VkCmdEndRenderPass,
          VkCmdBeginRenderPass extent color fr, VkCmdEndRenderPass]"
  by (simp add: render_stereo_def render_pass_begin_def upt_rec numeral_2_eq_2)

lemma render_eye_returns:
  "\<forall>i \<in> set js. i < length (lr_layers self) \<Longrightarrow> \<exists>cmds. render_eye cube self eye js = Inr cmds"
proof (induction js)
  case Nil
  then show ?case by simp
next
  case (Cons i js)
  then obtain cmds where "render_eye cube self eye js = Inr cmds" by auto
  with Cons.prems show ?case by (simp add: Let_def)
qed

lemma render_stereo_eyes_returns:
  assumes "unat (layer_count self) \<le> length (lr_layers self)"
  shows "\<exists>cmds. render_stereo_eyes cube self extent fbs color eyes = Inr cmds"
proof (induction eyes)
  case Nil
  show ?case by simp
next
  case (Cons eye eyes)
  from assms have "\<forall>i \<in> set [0..<unat (layer_count self)]. i < length (lr_layers self)"
    by simp
  from render_eye_returns [OF this] obtain layer_cmds where
    "render_eye cube self eye [0..<unat (layer_count self)] = Inr layer_cmds" by blast
  moreover from Cons.IH obtain cmds where
    "render_stereo_eyes cube self extent fbs color eyes = Inr cmds" by blast
  ultimately show ?case by simp
qed

lemma render_stereo_returns:
  assumes "unat (layer_count self) \<le> length (lr_layers self)"
  shows "\<exists>cmds. render_stereo cube self extent fbs color = Inr cmds \<and>
           clear_colors cmds = [color, color]"
proof -
  from render_stereo_eyes_returns [OF assms] obtain cs where
    "render_stereo_eyes cube self extent fbs color [0..<2] = Inr cs" by blast
  then obtain cmds where r: "render_stereo cube self extent fbs color = Inr cmds"
    by (simp add: render_stereo_def)
  from render_stereo_clear_colors [OF r] r show ?thesis by blast
qed

lemma comp_layer_renderer_draw_returns:
  assumes "unat (layer_count self) \<le> length (lr_layers self)"
  shows "\<exists>cmds. comp_layer_renderer_draw cube self rtr_left rtr_right = Inr cmds \<and>
           clear_colors cmds =
             (if layer_count self = 0 then [background_color_idle, background_color_idle]
              else [background_color_active, background_color_active])"
  using render_stereo_returns [OF assms]
  by (simp add: comp_layer_renderer_draw_def Let_def)

lemma comp_layer_renderer_draw_fault:
  assumes "comp_layer_renderer_draw cube self rtr_left rtr_right = Inl f"
  shows "length (lr_layers self) < unat (layer_count self)"
proof (rule ccontr)
  assume "\<not> length (lr_layers self) < unat (layer_count self)"
  then have "unat (layer_count self) \<le> length (lr_layers self)" by simp
  from comp_layer_renderer_draw_returns [OF this, of cube rtr_left rtr_right] assms
  show False by auto
qed

text \<open>The value of \<open>0.1f\<close> is within half a unit in the last place of one tenth.\<close>

lemma float_0_1_nearest:
  "float_0_1 = 13421773 / 2 ^ 27 \<and> \<bar>float_0_1 - 1 / 10\<bar> < 1 / 2 ^ 28"
  by (simp add: float_0_1_def)

text \<open>
  Claim C8. The idle colour is the constant \<open>{0.1f, 0.1f, 0.1f, 1.0f}\<close>, the active
  colour is \<open>{0, 0, 0, 1}\<close>, and they differ. Whenever \<open>layer_count\<close> is within
  the layer array, comp\_layer\_renderer\_draw returns the commands of a frame, and both
  render passes of it are cleared to the idle colour when \<open>layer_count\<close> is 0 and to
  the active colour otherwise; so a frame is drawn, in the idle colour, when there are
  no layers. The draw faults only when \<open>layer_count\<close> exceeds the array.
\<close>

theorem draw_clear_color:
  "background_color_idle =
     (13421773 / 134217728, 13421773 / 134217728, 13421773 / 134217728, 1) \<and>
   background_color_active = (0, 0, 0, 1) \<and>
   background_color_idle \<noteq> background_color_active \<and>
   (unat (layer_count self) \<le> length (lr_layers self) \<longrightarrow>
      (\<exists>cmds. comp_layer_renderer_draw cube self rtr_left rtr_right = Inr cmds \<and>
         clear_colors cmds =
           (if layer_count self = 0 then [background_color_idle, background_color_idle]
            else [background_color_active, background_color_active]))) \<and>
   (case comp_layer_renderer_draw cube self rtr_left rtr_right of
      Inl f \<Rightarrow> length (lr_layers self) < unat (layer_count self)
    | Inr cmds \<Rightarrow>
        clear_colors cmds =
          (if layer_count self = 0 then [background_color_idle, background_color_idle]
           else [background_color_active, background_color_active]))"
proof -
  have "background_color_idle =
     (13421773 / 134217728, 13421773 / 134217728, 13421773 / 134217728, 1)"
    "background_color_active = (0, 0, 0, 1)"
    "background_color_idle \<noteq> background_color_active"
    by (simp_all add: background_color_idle_def background_color_active_def float_0_1_def)
  moreover have "unat (layer_count self) \<le> length (lr_layers self) \<longrightarrow>
      (\<exists>cmds. comp_layer_renderer_draw cube self rtr_left rtr_right = Inr cmds \<and>
         clear_colors cmds =
           (if layer_count self = 0 then [background_color_idle, background_color_idle]
            else [background_color_active, background_color_active]))"
    using comp_layer_renderer_draw_returns by blast
  moreover have "case comp_layer_renderer_draw cube self rtr_left rtr_right of
      Inl f \<Rightarrow> length (lr_layers self) < unat (layer_count self)
    | Inr cmds \<Rightarrow>
        clear_colors cmds =
          (if layer_count self = 0 then [background_color_idle, background_color_idle]
           else [background_color_active, background_color_active])"
  proof (cases "comp_layer_renderer_draw cube self rtr_left rtr_right")
    case (Inl f)
    with comp_layer_renderer_draw_fault [OF Inl] show ?thesis by simp
  next
    case (Inr cmds)
    then show ?thesis
      by (auto simp: comp_layer_renderer_draw_def Let_def split: if_splits
            dest: render_stereo_clear_colors)
  qed
  ultimately show ?thesis by blast
qed

theorem draw_clear_color_witness:
  "comp_layer_renderer_draw False example_renderer
     \<lparr>rtr_extent = (960, 1080), rtr_framebuffer = 1\<rparr>
     \<lparr>rtr_extent = (960, 1080), rtr_framebuffer = 2\<rparr> =
   Inr [VkCmdSetViewport (960, 1080), VkCmdSetScissor (960, 1080),
        VkCmdBeginRenderPass (960, 1080) background_color_active 1,
        Comp_layer_draw 0 0 Pipeline_unpremultiplied_alpha Self_vertex_buffer Vp_world Vp_eye,
        VkCmdEndRenderPass,
        VkCmdBeginRenderPass (960, 1080) background_color_active 2,
        Comp_layer_draw 0 1 Pipeline_unpremultiplied_alpha Self_vertex_buffer Vp_world Vp_eye,
        VkCmdEndRenderPass] \<and>
   comp_layer_renderer_draw False \<lparr>layer_count = 0, lr_layers = []\<rparr>
     \<lparr>rtr_extent = (960, 1080), rtr_framebuffer = 1\<rparr>
     \<lparr>rtr_extent = (960, 1080), rtr_framebuffer = 2\<rparr> =
   Inr [VkCmdSetViewport (960, 1080), VkCmdSetScissor (960, 1080),
        VkCmdBeginRenderPass (960, 1080) background_color_idle 1, VkCmdEndRenderPass,
        VkCmdBeginRenderPass (960, 1080) background_color_idle 2, VkCmdEndRenderPass] \<and>
   (\<exists>cmds. comp_layer_renderer_draw False example_renderer
        \<lparr>rtr_extent = (960, 1080), rtr_framebuffer = 1\<rparr>
        \<lparr>rtr_extent = (960, 1080), rtr_framebuffer = 2\<rparr> = Inr cmds \<and>
      clear_colors cmds = [background_color_active, background_color_active]) \<and>
   (\<exists>cmds. comp_layer_renderer_draw False \<lparr>layer_count = 0, lr_layers = []\<rparr>
        \<lparr>rtr_extent = (960, 1080), rtr_framebuffer = 1\<rparr>
        \<lparr>rtr_extent = (960, 1080), rtr_framebuffer = 2\<rparr> = Inr cmds \<and>
      clear_colors cmds = [background_color_idle, background_color_idle]) \<and>
   background_color_idle \<noteq> background_color_active"
proof -
  let ?idle = "\<lparr>layer_count = 0, lr_layers = []\<rparr>"
  let ?l = "\<lparr>rtr_extent = (960, 1080), rtr_framebuffer = 1\<rparr>"
  let ?r = "\<lparr>rtr_extent = (960, 1080), rtr_framebuffer = 2\<rparr>"
  have active: "comp_layer_renderer_draw False example_renderer ?l ?r =
     Inr [VkCmdSetViewport (960, 1080), VkCmdSetScissor (960, 1080),
        VkCmdBeginRenderPass (960, 1080) background_color_active 1,
        Comp_layer_draw 0 0 Pipeline_unpremultiplied_alpha Self_vertex_buffer Vp_world Vp_eye,
        VkCmdEndRenderPass,
        VkCmdBeginRenderPass (960, 1080) background_color_active 2,
        Comp_layer_draw 0 1 Pipeline_unpremultiplied_alpha Self_vertex_buffer Vp_world Vp_eye,
        VkCmdEndRenderPass]"
    by code_simp
  have idle: "comp_layer_renderer_draw False ?idle ?l ?r =
     Inr [VkCmdSetViewport (960, 1080), VkCmdSetScissor (960, 1080),
          VkCmdBeginRenderPass (960, 1080) background_color_idle 1, VkCmdEndRenderPass,
          VkCmdBeginRenderPass (960, 1080) background_color_idle 2, VkCmdEndRenderPass]"
    by (simp add: comp_layer_renderer_draw_def render_stereo_no_layers Let_def)
  have fits: "unat (layer_count example_renderer) \<le> length (lr_layers example_renderer)"
    "unat (layer_count ?idle) \<le> length (lr_layers ?idle)"
    "layer_count example_renderer \<noteq> 0" "layer_count ?idle = 0"
    by (simp_all add: example_renderer_def)
  note a = draw_clear_color
    [where cube = False and self = example_renderer and rtr_left = ?l and rtr_right = ?r]
  note b = draw_clear_color
    [where cube = False and self = ?idle and rtr_left = ?l and rtr_right = ?r]
  from a fits(1,3)
  have "\<exists>cmds. comp_layer_renderer_draw False example_renderer ?l ?r = Inr cmds \<and>
      clear_colors cmds = [background_color_active, background_color_active]"
    by auto
  moreover from b fits(2,4)
  have "\<exists>cmds. comp_layer_renderer_draw False ?idle ?l ?r = Inr cmds \<and>
      clear_colors cmds = [background_color_idle, background_color_idle]"
    by auto
  moreover from a have "background_color_idle \<noteq> background_color_active" by blast
  ultimately show ?thesis using active idle by blast
qed

section \<open>A NULL swapchain slot skips the frame\<close>

lemma update_projection_layer_total:
  assumes "unat (fst (swapchain_ids layer)) < length (xscs (thread_state vs))"
    and "unat (snd (swapchain_ids layer)) < length (xscs (thread_state vs))"
  shows "\<exists>ok es. update_projection_layer vs layer k = Inr (ok, emit es vs) \<and>
           (ok \<longleftrightarrow> xscs (thread_state vs) ! unat (fst (swapchain_ids layer)) \<noteq> None \<and>
                  xscs (thread_state vs) ! unat (snd (swapchain_ids layer)) \<noteq> None)"
  using assms by (auto simp: update_projection_layer_def Let_def split: option.splits)

lemma update_quad_layer_total:
  assumes "unat (fst (swapchain_ids layer)) < length (xscs (thread_state vs))"
  shows "\<exists>ok es. update_quad_layer vs layer k = Inr (ok, emit es vs) \<and>
           (ok \<longleftrightarrow> xscs (thread_state vs) ! unat (fst (swapchain_ids layer)) \<noteq> None)"
  using assms by (auto simp: update_quad_layer_def Let_def split: option.splits)

lemma update_layers_loop_fails:
  assumes "\<forall>j \<in> set js. j < length (layers (render_state (thread_state vs))) \<and>
             swapchain_ids_in_range (xscs (thread_state vs))
               (layers (render_state (thread_state vs)) ! j)"
    and "i \<in> set js"
    and "null_swapchain_layer (xscs (thread_state vs))
           (layers (render_state (thread_state vs)) ! i)"
  shows "\<exists>vs'. update_layers_loop js vs = Inr (False, vs')"
  using assms
proof (induction js arbitrary: vs)
  case Nil
  then show ?case by simp
next
  case (Cons j js)
  let ?ts = "thread_state vs"
  let ?layer = "layers (render_state ?ts) ! j"
  from Cons.prems(1) have inr: "j < length (layers (render_state ?ts))"
    and ids: "swapchain_ids_in_range (xscs ?ts) ?layer" by simp_all
  have step: "\<exists>vs'. update_layers_loop js (emit es vs) = Inr (False, vs')"
    if "i \<in> set js" for es
    using Cons.IH [of "emit es vs"] Cons.prems(1,3) that by (simp add: thread_state_emit)
  consider (proj) "data_type ?layer = XRT_LAYER_STEREO_PROJECTION"
    | (quad) "data_type ?layer = XRT_LAYER_QUAD"
    | (other) "data_type ?layer \<noteq> XRT_LAYER_STEREO_PROJECTION" "data_type ?layer \<noteq> XRT_LAYER_QUAD"
    by blast
  then show ?case
  proof cases
    case proj
    with ids have r: "unat (fst (swapchain_ids ?layer)) < length (xscs ?ts)"
      "unat (snd (swapchain_ids ?layer)) < length (xscs ?ts)"
      by (simp_all add: swapchain_ids_in_range_def)
    from update_projection_layer_total [OF r, of "of_nat j"] obtain ok es where
      one: "update_projection_layer vs ?layer (of_nat j) = Inr (ok, emit es vs)" and
      ok: "ok \<longleftrightarrow> xscs ?ts ! unat (fst (swapchain_ids ?layer)) \<noteq> None \<and>
                  xscs ?ts ! unat (snd (swapchain_ids ?layer)) \<noteq> None"
      by blast
    show ?thesis
    proof (cases ok)
      case False
      with one proj inr show ?thesis by (simp add: Let_def)
    next
      case True
      with ok proj Cons.prems(3) have "i \<noteq> j"
        by (auto simp: null_swapchain_layer_def)
      with Cons.prems(2) have "i \<in> set js" by simp
      from step [OF this, of es] one proj inr True show ?thesis by (simp add: Let_def)
    qed
  next
    case quad
    with ids have r: "unat (fst (swapchain_ids ?layer)) < length (xscs ?ts)"
      by (simp add: swapchain_ids_in_range_def)
    from update_quad_layer_total [OF r, of "of_nat j"] obtain ok es where
      one: "update_quad_layer vs ?layer (of_nat j) = Inr (ok, emit es vs)" and
      ok: "ok \<longleftrightarrow> xscs ?ts ! unat (fst (swapchain_ids ?layer)) \<noteq> None"
      by blast
    show ?thesis
    proof (cases ok)
      case False
      with one quad inr show ?thesis by (simp add: Let_def)
    next
      case True
      with ok quad Cons.prems(3) have "i \<noteq> j"
        by (auto simp: null_swapchain_layer_def)
      with Cons.prems(2) have "i \<in> set js" by simp
      from step [OF this, of es] one quad inr True show ?thesis by (simp add: Let_def)
    qed
  next
    case other
    with Cons.prems(3) have "i \<noteq> j" by (auto simp: null_swapchain_layer_def)
    with Cons.prems(2) have "i \<in> set js" by simp
    from step [OF this, of "[]"] have "\<exists>vs'. update_layers_loop js vs = Inr (False, vs')"
      by (simp add: emit_Nil)
    with other inr show ?thesis by (cases "data_type ?layer") (simp_all add: Let_def)
  qed
qed

lemma quiet_append: "quiet (xs @ ys) \<longleftrightarrow> quiet xs \<and> quiet ys"
  by (auto simp: quiet_def)

lemma quiet_Nil: "quiet []"
  by (simp add: quiet_def)

lemma quiet_layer_allocs:
  "quiet (map Comp_layer_destroy xs @ map Comp_layer_create ys)"
  by (auto simp: quiet_def invalid_swapchain_log_def filter_empty_conv)

lemma same_session_refl: "same_session vs vs"
  by (simp add: same_session_def)

lemma same_session_trans:
  "same_session a b \<Longrightarrow> same_session b c \<Longrightarrow> same_session a c"
  by (simp add: same_session_def)

lemma handle_listen_same:
  "same_session vs (handle_listen r vs) \<and>
   (\<exists>es. trace (handle_listen r vs) = trace vs @ es \<and> quiet es)"
  by (simp add: handle_listen_def same_session_def emit_def Let_def quiet_def
        invalid_swapchain_log_def)

lemma check_epoll_loop_same:
  "same_session vs (check_epoll_loop acc i evs vs) \<and>
   (\<exists>es. trace (check_epoll_loop acc i evs vs) = trace vs @ es \<and> quiet es)"
proof (induction evs arbitrary: i vs)
  case Nil
  show ?case by (simp add: same_session_refl quiet_Nil)
next
  case (Cons fd evs)
  show ?case
  proof (cases "fd = 0")
    case True
    then show ?thesis by (simp add: same_session_def quiet_Nil)
  next
    case False
    let ?vs1 = "if fd = listen_socket vs then handle_listen (acc i) vs else vs"
    have one: "same_session vs ?vs1" "\<exists>es. trace ?vs1 = trace vs @ es \<and> quiet es"
      using handle_listen_same [of vs "acc i"] by (auto simp: same_session_refl quiet_Nil)
    from one(2) obtain es1 where es1: "trace ?vs1 = trace vs @ es1" "quiet es1" by blast
    from Cons.IH [where i = "Suc i" and vs = ?vs1] obtain es2 where
      two: "same_session ?vs1 (check_epoll_loop acc (Suc i) evs ?vs1)"
        "trace (check_epoll_loop acc (Suc i) evs ?vs1) = trace ?vs1 @ es2" "quiet es2"
      by blast
    have eq: "check_epoll_loop acc i (fd # evs) vs = check_epoll_loop acc (Suc i) evs ?vs1"
      using False by simp
    have "same_session vs (check_epoll_loop acc i (fd # evs) vs)"
      unfolding eq by (rule same_session_trans [OF one(1) two(1)])
    moreover have "trace (check_epoll_loop acc i (fd # evs) vs) = trace vs @ (es1 @ es2)"
      unfolding eq two(2) es1(1) by simp
    moreover have "quiet (es1 @ es2)" using es1(2) two(3) by (simp add: quiet_append)
    ultimately show ?thesis by blast
  qed
qed

lemma check_epoll_same:
  "same_session vs (check_epoll e vs) \<and>
   (\<exists>es. trace (check_epoll e vs) = trace vs @ es \<and> quiet es)"
proof (cases "epoll_wait_ret e < 0")
  case True
  then show ?thesis
    by (simp add: check_epoll_def Let_def same_session_def emit_def quiet_def
          invalid_swapchain_log_def)
next
  case False
  then show ?thesis
    using check_epoll_loop_same by (simp add: check_epoll_def Let_def)
qed

lemma update_layers_fails:
  assumes "unat (num_layers (render_state (thread_state vs)))
             \<le> length (layers (render_state (thread_state vs)))"
    and "\<forall>j < unat (num_layers (render_state (thread_state vs))).
           swapchain_ids_in_range (xscs (thread_state vs))
             (layers (render_state (thread_state vs)) ! j)"
    and "i < unat (num_layers (render_state (thread_state vs)))"
    and "null_swapchain_layer (xscs (thread_state vs))
           (layers (render_state (thread_state vs)) ! i)"
  shows "\<exists>vs' nl' es. update_layers created vs nl = Inr (False, vs', nl') \<and>
           trace vs' = trace vs @ es \<and> thread_state vs' = thread_state vs \<and>
           running vs' = running vs \<and>
           Comp_renderer_draw \<notin> set es \<and> length (filter invalid_swapchain_log es) = 1"
proof -
  let ?n = "num_layers (render_state (thread_state vs))"
  let ?vs1 = "if nl \<noteq> ?n
              then comp_renderer_allocate_layers created (comp_renderer_destroy_layers vs) ?n
              else vs"
  have ts1: "thread_state ?vs1 = thread_state vs" and ru1: "running ?vs1 = running vs"
    by (simp_all add: comp_renderer_allocate_layers_def comp_renderer_destroy_layers_def
          comp_layer_renderer_allocate_layers_def comp_layer_renderer_destroy_layers_def
          emit_def Let_def)
  have "\<exists>es1. trace ?vs1 = trace vs @ es1 \<and> quiet es1"
  proof (cases "nl \<noteq> ?n")
    case True
    have "trace ?vs1 = trace vs @
        (map Comp_layer_destroy [0..<unat (layer_count (renderer vs))] @
         map Comp_layer_create [0..<unat ?n])"
      using True
      by (simp add: comp_renderer_allocate_layers_def comp_renderer_destroy_layers_def
          comp_layer_renderer_allocate_layers_def comp_layer_renderer_destroy_layers_def
          emit_def Let_def)
    then show ?thesis using quiet_layer_allocs by blast
  next
    case False
    then show ?thesis by (simp add: quiet_Nil)
  qed
  then obtain es1 where es1: "trace ?vs1 = trace vs @ es1" "quiet es1" by blast
  have rng: "\<forall>j \<in> set [0..<unat ?n].
      j < length (layers (render_state (thread_state ?vs1))) \<and>
      swapchain_ids_in_range (xscs (thread_state ?vs1))
        (layers (render_state (thread_state ?vs1)) ! j)"
    unfolding ts1 using assms(1,2) by auto
  have mem: "i \<in> set [0..<unat ?n]" using assms(3) by simp
  have bad: "null_swapchain_layer (xscs (thread_state ?vs1))
      (layers (render_state (thread_state ?vs1)) ! i)"
    unfolding ts1 by (rule assms(4))
  from update_layers_loop_fails [OF rng mem bad] obtain vs' where
    loop: "update_layers_loop [0..<unat ?n] ?vs1 = Inr (False, vs')" by blast
  from update_layers_loop_emit [OF loop] obtain es2 where
    es2: "vs' = emit es2 ?vs1" "\<forall>e \<in> set es2. \<not> layer_alloc_event e \<and> e \<noteq> Comp_renderer_draw"
      "length (filter invalid_swapchain_log es2) = 1"
    by auto
  have run: "update_layers created vs nl = Inr (False, vs', if nl \<noteq> ?n then ?n else nl)"
    using loop by (cases "nl = ?n") (simp_all add: update_layers_def Let_def)
  have "trace vs' = trace vs @ (es1 @ es2)"
    unfolding es2(1) by (simp add: trace_emit es1(1))
  moreover have "thread_state vs' = thread_state vs"
    unfolding es2(1) by (simp add: thread_state_emit ts1)
  moreover have "running vs' = running vs"
    unfolding es2(1) using ru1 by (simp add: emit_def)
  moreover have "Comp_renderer_draw \<notin> set (es1 @ es2)"
    using es1(2) es2(2) by (auto simp: quiet_def)
  moreover have "length (filter invalid_swapchain_log (es1 @ es2)) = 1"
    using es1(2) es2(3) by (simp add: quiet_def)
  ultimately show ?thesis using run by blast
qed

lemma main_loop_body_null_swapchain:
  assumes act: "active (thread_state vs)" "num_swapchains (thread_state vs) \<noteq> 0"
      "rendering (render_state (thread_state vs))"
    and fits: "unat (num_layers (render_state (thread_state vs)))
                 \<le> length (layers (render_state (thread_state vs)))"
      "\<forall>j < unat (num_layers (render_state (thread_state vs))).
         swapchain_ids_in_range (xscs (thread_state vs))
           (layers (render_state (thread_state vs)) ! j)"
    and bad: "i < unat (num_layers (render_state (thread_state vs)))"
      "null_swapchain_layer (xscs (thread_state vs))
         (layers (render_state (thread_state vs)) ! i)"
  shows "\<exists>vs' nl'. main_loop_body e vs nl = Inr (vs', nl') \<and>
           Comp_renderer_draw \<notin> set (emitted vs vs') \<and>
           rendering (render_state (thread_state vs')) \<and>
           length (filter invalid_swapchain_log (emitted vs vs')) = 1 \<and>
           running vs' = running (check_epoll e vs) \<and>
           active (thread_state vs') = active (thread_state vs) \<and>
           num_swapchains (thread_state vs') = num_swapchains (thread_state vs) \<and>
           xscs (thread_state vs') = xscs (thread_state vs) \<and>
           render_state (thread_state vs') = render_state (thread_state vs)"
proof -
  let ?vs1 = "check_epoll e vs"
  from check_epoll_same [of vs e] obtain es0 where
    same: "same_session vs ?vs1" and tr0: "trace ?vs1 = trace vs @ es0" and q0: "quiet es0"
    by blast
  from same have f: "active (thread_state ?vs1) = active (thread_state vs)"
    "num_swapchains (thread_state ?vs1) = num_swapchains (thread_state vs)"
    "xscs (thread_state ?vs1) = xscs (thread_state vs)"
    "render_state (thread_state ?vs1) = render_state (thread_state vs)"
    by (simp_all add: same_session_def)
  have "\<exists>vs' nl' es1. update_layers (comp_layer_create_ret e) ?vs1 nl = Inr (False, vs', nl') \<and>
           trace vs' = trace ?vs1 @ es1 \<and> thread_state vs' = thread_state ?vs1 \<and>
           running vs' = running ?vs1 \<and>
           Comp_renderer_draw \<notin> set es1 \<and> length (filter invalid_swapchain_log es1) = 1"
    by (rule update_layers_fails [where i = i];
        (unfold f)?; (rule fits(1) | rule fits(2) | rule bad(1) | rule bad(2)))
  then obtain vs' nl' es1 where
    upd: "update_layers (comp_layer_create_ret e) ?vs1 nl = Inr (False, vs', nl')" and
    tr1: "trace vs' = trace ?vs1 @ es1" and ts: "thread_state vs' = thread_state ?vs1" and
    ru: "running vs' = running ?vs1" and
    nd: "Comp_renderer_draw \<notin> set es1" and one: "length (filter invalid_swapchain_log es1) = 1"
    by blast
  have body: "main_loop_body e vs nl = Inr (vs', nl')"
    using act f upd by (simp add: main_loop_body_def Let_def)
  have em: "emitted vs vs' = es0 @ es1"
    by (rule emitted_trace) (simp add: tr1 tr0)
  have "Comp_renderer_draw \<notin> set (emitted vs vs')"
    unfolding em using q0 nd by (simp add: quiet_def)
  moreover have "rendering (render_state (thread_state vs'))"
    unfolding ts f by (rule act(3))
  moreover have "length (filter invalid_swapchain_log (emitted vs vs')) = 1"
    unfolding em using q0 one by (simp add: quiet_def)
  moreover have "active (thread_state vs') = active (thread_state vs)"
    "num_swapchains (thread_state vs') = num_swapchains (thread_state vs)"
    "xscs (thread_state vs') = xscs (thread_state vs)"
    "render_state (thread_state vs') = render_state (thread_state vs)"
    unfolding ts by (rule f)+
  ultimately show ?thesis using body ru by blast
qed





text \<open>
  The frame stays submitted, so as long as the other threads leave the session as it
  is, the next iteration fails in the same way and reports the NULL slot once more.
\<close>

lemma null_swapchain_reported_again:
  assumes act: "active (thread_state vs)" "num_swapchains (thread_state vs) \<noteq> 0"
      "rendering (render_state (thread_state vs))"
    and fits: "unat (num_layers (render_state (thread_state vs)))
                 \<le> length (layers (render_state (thread_state vs)))"
      "\<forall>j < unat (num_layers (render_state (thread_state vs))).
         swapchain_ids_in_range (xscs (thread_state vs))
           (layers (render_state (thread_state vs)) ! j)"
    and bad: "i < unat (num_layers (render_state (thread_state vs)))"
      "null_swapchain_layer (xscs (thread_state vs))
         (layers (render_state (thread_state vs)) ! i)"
    and first: "main_loop_body e vs nl = Inr (vs', nl')"
    and idle: "same_session vs' (worker_writes e vs')"
  shows "\<exists>vs'' nl''. main_loop_body e' (worker_writes e vs') nl' = Inr (vs'', nl'') \<and>
           Comp_renderer_draw \<notin> set (emitted (worker_writes e vs') vs'') \<and>
           length (filter invalid_swapchain_log (emitted (worker_writes e vs') vs'')) = 1"
proof -
  let ?w = "worker_writes e vs'"
  from main_loop_body_null_swapchain [OF act fits bad, of e nl] first
  have s1: "active (thread_state vs') = active (thread_state vs)"
    "num_swapchains (thread_state vs') = num_swapchains (thread_state vs)"
    "xscs (thread_state vs') = xscs (thread_state vs)"
    "render_state (thread_state vs') = render_state (thread_state vs)"
    by auto
  from idle have s2: "active (thread_state ?w) = active (thread_state vs')"
    "num_swapchains (thread_state ?w) = num_swapchains (thread_state vs')"
    "xscs (thread_state ?w) = xscs (thread_state vs')"
    "render_state (thread_state ?w) = render_state (thread_state vs')"
    by (simp_all add: same_session_def)
  have "\<exists>vs'' nl''. main_loop_body e' ?w nl' = Inr (vs'', nl'') \<and>
           Comp_renderer_draw \<notin> set (emitted ?w vs'') \<and>
           rendering (render_state (thread_state vs'')) \<and>
           length (filter invalid_swapchain_log (emitted ?w vs'')) = 1 \<and>
           running vs'' = running (check_epoll e' ?w) \<and>
           active (thread_state vs'') = active (thread_state ?w) \<and>
           num_swapchains (thread_state vs'') = num_swapchains (thread_state ?w) \<and>
           xscs (thread_state vs'') = xscs (thread_state ?w) \<and>
           render_state (thread_state vs'') = render_state (thread_state ?w)"
    by (rule main_loop_body_null_swapchain [where i = i];
        (unfold s2 s1)?; (rule act | rule fits(1) | rule fits(2) | rule bad(1) | rule bad(2)))
  then show ?thesis by blast
qed

end
